theory Spec2Isabelle
  imports Complex_Main
begin
section \<open>Numbers\<close>

text \<open>
  The functions of \<^verbatim>\<open>main.js\<close> compute on JavaScript numbers, the IEEE-754 doubles.
  Coordinates, lengths and angles are embedded over \<^typ>\<open>real\<close>: there every arithmetic
  operation is the exact one and \<^verbatim>\<open>Math.hypot\<close> is the Euclidean norm; the rounding error
  of these quantities, \<^verbatim>\<open>NaN\<close> and the infinities are outside the embedding.
  \<^verbatim>\<open>Math.ceil\<close> is the ceiling, \<^verbatim>\<open>Math.round\<close> rounds to the nearest integer with halves
  going up (\<open>\<lfloor>v + 1/2\<rfloor>\<close>).
\<close>

definition Math_round :: "real \<Rightarrow> int" where
  "Math_round v = \<lfloor>v + 1 / 2\<rfloor>"

definition Math_ceil :: "real \<Rightarrow> int" where
  "Math_ceil v = \<lceil>v\<rceil>"

definition hypot :: "real \<Rightarrow> real \<Rightarrow> real" where
  "hypot a b = sqrt (a * a + b * b)"

text \<open>
  Where the program takes an integer from a computed number (the number of depth layers, of
  circle segments, of spiral turns and of tabs, and the tenths of a depth level), the last bit
  of that number decides the result, so the arithmetic that leads to it is the one of the
  doubles. \<open>dbl\<close> rounds a real to the nearest number with 53 significant bits, a tie going to
  the even significand; \<open>dadd\<close>, \<open>dsub\<close>, \<open>dmul\<close> and \<open>ddiv\<close> are the four operations of the
  program on the doubles nearest to their arguments, so that a decimal literal stands for
  the double it denotes. The exponent of \<open>dbl\<close> is not bounded: overflow and subnormal
  numbers are outside the embedding. So is a quotient by zero where the program keeps the
  divisor away from zero: \<^verbatim>\<open>validateInputs\<close> refuses a \<^verbatim>\<open>stepdown\<close> or \<^verbatim>\<open>stepover\<close> that is not
  positive, and \<^verbatim>\<open>buildTabConfig\<close> a tab interval that is not. The quotient by a
  \<^verbatim>\<open>Math.acos\<close> of zero in \<^verbatim>\<open>segmentsForCircleRadius\<close> is written out.
\<close>

definition roundEven :: "real \<Rightarrow> int" where
  "roundEven y =
     (let f = \<lfloor>y\<rfloor>; r = y - real_of_int f
      in if r < 1 / 2 then f else if 1 / 2 < r then f + 1 else if even f then f else f + 1)"

definition dbl :: "real \<Rightarrow> real" where
  "dbl x =
     (if x = 0 then 0
      else
        let u = 2 powr real_of_int (\<lfloor>log 2 \<bar>x\<bar>\<rfloor> - 52)
        in real_of_int (roundEven (x / u)) * u)"


definition dsub :: "real \<Rightarrow> real \<Rightarrow> real" where
  "dsub a b = dbl (dbl a - dbl b)"

definition dmul :: "real \<Rightarrow> real \<Rightarrow> real" where
  "dmul a b = dbl (dbl a * dbl b)"

definition ddiv :: "real \<Rightarrow> real \<Rightarrow> real" where
  "ddiv a b = dbl (dbl a / dbl b)"

section \<open>Depth layering: \<^verbatim>\<open>computeDepthLevels\<close>\<close>

text \<open>
  The local helper \<^verbatim>\<open>round1 = (v) => Math.round(v * 10) / 10\<close>, on doubles: the product and
  the quotient are rounded.
\<close>

definition round1 :: "real \<Rightarrow> real" where
  "round1 v = ddiv (real_of_int (Math_round (dmul v 10))) 10"

text \<open>
  \<^verbatim>\<open>numLayers = Math.max(1, Math.ceil(totalDepth / stepdown))\<close>, then
  \<^verbatim>\<open>layerHeight = totalDepth / numLayers\<close> and for \<open>i = 1 .. numLayers\<close> the value
  \<^verbatim>\<open>-round1(Math.abs(z))\<close> with \<open>z = -totalDepth\<close> for the last layer and
  \<open>z = -i * layerHeight\<close> otherwise. Every level passes through \<^verbatim>\<open>Math.round\<close>, so the
  whole function is on doubles.
\<close>

definition numLayers :: "real \<Rightarrow> real \<Rightarrow> nat" where
  "numLayers totalDepth stepdown = nat (max 1 (Math_ceil (ddiv totalDepth stepdown)))"

definition layerZ :: "real \<Rightarrow> nat \<Rightarrow> nat \<Rightarrow> real" where
  "layerZ totalDepth n i =
     (let layerHeight = ddiv totalDepth (real n);
          z = (if i = n then - totalDepth else dmul (- real i) layerHeight)
      in - round1 \<bar>z\<bar>)"

definition computeDepthLevels :: "real \<Rightarrow> real \<Rightarrow> real list" where
  "computeDepthLevels totalDepth stepdown =
     (let n = numLayers totalDepth stepdown
      in map (layerZ totalDepth n) [1 ..< Suc n])"


section \<open>Points and contours\<close>

text \<open>
  A point is the object \<^verbatim>\<open>{ x, y, z }\<close>; the fields are named \<open>px\<close>, \<open>py\<close>, \<open>pz\<close> here.
  The source reads \<^verbatim>\<open>curr.z ?? 0\<close>; in the embedding every point carries its \<open>z\<close>.
\<close>

record point =
  px :: real
  py :: real
  pz :: real

text \<open>The literal \<^verbatim>\<open>{ x: a, y: b, z: 0 }\<close>.\<close>

definition pt :: "real \<Rightarrow> real \<Rightarrow> point" where
  "pt a b = \<lparr>px = a, py = b, pz = 0\<rparr>"


section \<open>Signed area: \<^verbatim>\<open>polygonSignedArea2\<close>\<close>

text \<open>
  \<^verbatim>\<open>for (i = 0; i < n; i++) { j = (i + 1) % n; sum += (pts[j].x - pts[i].x) * (pts[j].y + pts[i].y); }\<close>,
  and \<open>0\<close> for fewer than three points.
\<close>

definition areaTerm :: "point list \<Rightarrow> nat \<Rightarrow> real" where
  "areaTerm pts i =
     (let j = (i + 1) mod length pts
      in (px (pts ! j) - px (pts ! i)) * (py (pts ! j) + py (pts ! i)))"

definition polygonSignedArea2 :: "point list \<Rightarrow> real" where
  "polygonSignedArea2 pts =
     (if length pts < 3 then 0 else (\<Sum>i \<leftarrow> [0 ..< length pts]. areaTerm pts i))"

text \<open>
  The reference the documentation of \<^verbatim>\<open>polygonSignedArea2\<close> names: twice the signed area
  of the polygon by the shoelace formula, \<open>\<Sum> (x\<^sub>i y\<^sub>j - x\<^sub>j y\<^sub>i)\<close> over the edges \<open>i \<rightarrow> j\<close>,
  which is positive for a counter-clockwise vertex order (x to the right, y upwards).
\<close>

definition shoelaceTerm :: "point list \<Rightarrow> nat \<Rightarrow> real" where
  "shoelaceTerm pts i =
     (let j = (i + 1) mod length pts
      in px (pts ! i) * py (pts ! j) - px (pts ! j) * py (pts ! i))"

definition shoelaceArea2 :: "point list \<Rightarrow> real" where
  "shoelaceArea2 pts = (\<Sum>i \<leftarrow> [0 ..< length pts]. shoelaceTerm pts i)"

section \<open>Contour offset: \<^verbatim>\<open>contourOffset\<close>\<close>

text \<open>
  Every \<^verbatim>\<open>return null\<close> of \<^verbatim>\<open>contourOffset\<close> is one constructor; \<open>failReason\<close> is the
  string the source stores in \<^verbatim>\<open>debug.failReason\<close> on that path, \<open>None\<close> where it stores
  nothing.
\<close>

datatype offsetFailure =
    ContourTooShort
  | TooFewAfterDedupe
  | CleanupCollapsed
  | ZeroEdge
  | ResultTooShort
  | AreaTooSmall
  | WindingFlipped

fun failReason :: "offsetFailure \<Rightarrow> string option" where
  "failReason ContourTooShort = Some ''contour te kort of leeg''"
| "failReason TooFewAfterDedupe = Some ''te weinig punten na opschonen''"
| "failReason CleanupCollapsed = None"
| "failReason ZeroEdge = Some ''nul-rand in contour (letter te smal voor offset)''"
| "failReason ResultTooShort = None"
| "failReason AreaTooSmall =
     Some ''te kleine oppervlakte na offset (frees te groot of letter te smal)''"
| "failReason WindingFlipped = Some ''polygoon kantelt na offset''"

definition tol :: real where "tol = 1 / 1000000"
definition minLen :: real where "minLen = 1 / 1000000"

text \<open>The closing duplicate is cut off when first and last point agree within \<open>1e-9\<close>.\<close>

definition isClosed :: "point list \<Rightarrow> bool" where
  "isClosed pts =
     (let n = length pts
      in n \<ge> 2 \<and> \<bar>px (pts ! (n - 1)) - px (pts ! 0)\<bar> < 1 / 1000000000
             \<and> \<bar>py (pts ! (n - 1)) - py (pts ! 0)\<bar> < 1 / 1000000000)"

definition openContour :: "point list \<Rightarrow> point list" where
  "openContour pts = (if isClosed pts then take (length pts - 1) pts else pts)"

text \<open>The first loop: a point is kept when it differs from the last kept one by more than \<open>tol\<close>.\<close>

definition dedupeStep :: "point \<Rightarrow> point list \<Rightarrow> point list" where
  "dedupeStep p out =
     (if out = [] \<or> \<bar>px p - px (last out)\<bar> > tol \<or> \<bar>py p - py (last out)\<bar> > tol
      then out @ [p] else out)"

definition dedupe :: "point list \<Rightarrow> point list" where
  "dedupe pts = fold dedupeStep pts []"

text \<open>
  One vertex of a cleanup pass: dropped (\<open>None\<close>), replaced by a midpoint, or kept; the flag
  is the vertex's contribution to \<^verbatim>\<open>changed\<close>.
\<close>

definition cleanupVertex :: "point list \<Rightarrow> nat \<Rightarrow> point option \<times> bool" where
  "cleanupVertex pts i =
     (let n = length pts;
          prev = pts ! ((i + n - 1) mod n);
          curr = pts ! i;
          nextP = pts ! ((i + 1) mod n);
          len1 = hypot (px curr - px prev) (py curr - py prev);
          len2 = hypot (px nextP - px curr) (py nextP - py curr)
      in if len1 < minLen \<and> len2 < minLen then (None, True)
         else if len1 < minLen then
           (Some \<lparr>px = (1 / 2) * (px prev + px curr), py = (1 / 2) * (py prev + py curr),
                  pz = pz curr\<rparr>, True)
         else if len2 < minLen then
           (Some \<lparr>px = (1 / 2) * (px curr + px nextP), py = (1 / 2) * (py curr + py nextP),
                  pz = pz curr\<rparr>, True)
         else (Some curr, False))"

definition cleanupPass :: "point list \<Rightarrow> point list \<times> bool" where
  "cleanupPass pts =
     (let rs = map (cleanupVertex pts) [0 ..< length pts]
      in (concat (map (\<lambda>r. case fst r of None \<Rightarrow> [] | Some p \<Rightarrow> [p]) rs), list_ex snd rs))"

text \<open>
  \<^verbatim>\<open>for (pass = 0; pass < 3; pass++)\<close>: the argument counts the passes that remain.
  \<open>None\<close> is the \<^verbatim>\<open>return null\<close> inside the loop.
\<close>

fun cleanupLoop :: "nat \<Rightarrow> point list \<Rightarrow> point list option" where
  "cleanupLoop 0 pts = Some pts"
| "cleanupLoop (Suc k) pts =
     (let (next, changed) = cleanupPass pts
      in if length next < 3 then None
         else if \<not> changed then Some next
         else cleanupLoop k next)"

text \<open>One vertex of the offset loop; \<open>None\<close> when one of its two edges is shorter than \<open>minLen\<close>.\<close>

definition offsetVertex :: "point list \<Rightarrow> real \<Rightarrow> real \<Rightarrow> real \<Rightarrow> nat \<Rightarrow> point option" where
  "offsetVertex pts sign d z0 i =
     (let num = length pts;
          prev = pts ! ((i + num - 1) mod num);
          curr = pts ! i;
          next = pts ! ((i + 1) mod num);
          dx1 = px curr - px prev;
          dy1 = py curr - py prev;
          dx2 = px next - px curr;
          dy2 = py next - py curr;
          len1 = hypot dx1 dy1;
          len2 = hypot dx2 dy2
      in if len1 < minLen \<or> len2 < minLen then None
         else
           let nx1 = sign * (- dy1 / len1);
               ny1 = sign * (dx1 / len1);
               nx2 = sign * (- dy2 / len2);
               ny2 = sign * (dx2 / len2);
               A1x = px prev + d * nx1;
               A1y = py prev + d * ny1;
               A2x = px curr + d * nx2;
               A2y = py curr + d * ny2;
               cross = dx1 * dy2 - dy1 * dx2
           in if \<bar>cross\<bar> < 1 / 100000000000000 then
                Some \<lparr>px = (1 / 2) * (A1x + A2x), py = (1 / 2) * (A1y + A2y), pz = z0\<rparr>
              else
                let t = ((A2x - A1x) * dy2 - (A2y - A1y) * dx2) / cross
                in Some \<lparr>px = A1x + t * dx1, py = A1y + t * dy1, pz = z0\<rparr>)"

text \<open>The test \<^verbatim>\<open>len1 < minLen || len2 < minLen\<close> of the offset loop at vertex \<open>i\<close>.\<close>

definition zeroEdgeAt :: "point list \<Rightarrow> nat \<Rightarrow> bool" where
  "zeroEdgeAt pts i =
     (let num = length pts;
          prev = pts ! ((i + num - 1) mod num);
          curr = pts ! i;
          next = pts ! ((i + 1) mod num)
      in hypot (px curr - px prev) (py curr - py prev) < minLen
         \<or> hypot (px next - px curr) (py next - py curr) < minLen)"

definition windingSign :: "point list \<Rightarrow> real" where
  "windingSign pts = (if polygonSignedArea2 pts \<ge> 0 then 1 else - 1)"

text \<open>
  The offset polygon of a cleaned point list (before the closing point is appended);
  \<open>None\<close> when some vertex has a zero-length edge.
\<close>

definition offsetPolygon :: "point list \<Rightarrow> real \<Rightarrow> point list option" where
  "offsetPolygon pts d =
     those (map (offsetVertex pts (windingSign pts) d (pz (pts ! 0))) [0 ..< length pts])"

definition offsetCleaned :: "point list \<Rightarrow> real \<Rightarrow> offsetFailure + point list" where
  "offsetCleaned pts d =
     (case offsetPolygon pts d of
        None \<Rightarrow> Inl ZeroEdge
      | Some result \<Rightarrow>
          if length result < 3 then Inl ResultTooShort
          else if \<bar>polygonSignedArea2 result\<bar> < 1 / 1000000 then Inl AreaTooSmall
          else if polygonSignedArea2 result * polygonSignedArea2 pts < 0 then Inl WindingFlipped
          else Inr (result @ [(result ! 0)\<lparr>pz := pz (pts ! 0)\<rparr>]))"

definition contourOffset :: "point list \<Rightarrow> real \<Rightarrow> offsetFailure + point list" where
  "contourOffset contour distance =
     (if length contour < 3 then Inl ContourTooShort
      else if distance = 0 then Inr contour
      else
        let pts = dedupe (openContour contour)
        in if length pts < 3 then Inl TooFewAfterDedupe
           else case cleanupLoop 3 pts of
                  None \<Rightarrow> Inl CleanupCollapsed
                | Some cleaned \<Rightarrow> offsetCleaned cleaned distance)"

text \<open>
  \<^verbatim>\<open>pocketRingsFromInnerContour\<close>: rings by repeated offset with the stepover, at most
  \<^verbatim>\<open>MAX_POCKET_RINGS\<close> of them. The first argument counts the iterations that remain.
\<close>

definition MAX_POCKET_RINGS :: nat where "MAX_POCKET_RINGS = 300"

fun pocketRingsLoop :: "nat \<Rightarrow> point list \<Rightarrow> real \<Rightarrow> point list list" where
  "pocketRingsLoop 0 current stepover = []"
| "pocketRingsLoop (Suc k) current stepover =
     (if length current \<ge> 3 then
        current # (case contourOffset current stepover of
                     Inl _ \<Rightarrow> []
                   | Inr next \<Rightarrow> pocketRingsLoop k next stepover)
      else [])"

definition pocketRingsFromInnerContour :: "point list \<Rightarrow> real \<Rightarrow> point list list" where
  "pocketRingsFromInnerContour innerContour stepover =
     pocketRingsLoop MAX_POCKET_RINGS innerContour stepover"

subsection \<open>Concrete contours\<close>

text \<open>
  The unit square in counter-clockwise and in clockwise vertex order, a rectangle of
  \<open>3 \<times> 2.0000007\<close> mm, and a closed contour of four collinear points less than
  \<open>2e-6\<close> apart. Each is given without its closing point.
\<close>

definition squareCCW :: "point list" where
  "squareCCW = [pt 0 0, pt 1 0, pt 1 1, pt 0 1]"

definition squareCW :: "point list" where
  "squareCW = [pt 0 0, pt 0 1, pt 1 1, pt 1 0]"

definition thinRect :: "point list" where
  "thinRect = [pt 0 0, pt 3 0, pt 3 (20000007 / 10000000), pt 0 (20000007 / 10000000)]"

definition sliver :: "point list" where
  "sliver = [pt 0 0, pt (13 / 10000000) 0, pt (- (1 / 2500000)) 0, pt (9 / 10000000) 0]"

section \<open>Toolpath moves\<close>

text \<open>
  A move is \<^verbatim>\<open>{ x, y, z, type }\<close> with \<^verbatim>\<open>type\<close> one of \<^verbatim>\<open>"rapid"\<close>, \<^verbatim>\<open>"cut"\<close>, \<^verbatim>\<open>"arc"\<close>;
  an arc move carries the fields \<^verbatim>\<open>i\<close>, \<^verbatim>\<open>j\<close> and \<^verbatim>\<open>clockwise\<close> besides.
\<close>

datatype moveKind = Rapid | Cut | Arc real real bool

record move =
  mx :: real
  my :: real
  mz :: real
  kind :: moveKind

definition rapidMove :: "real \<Rightarrow> real \<Rightarrow> real \<Rightarrow> move" where
  "rapidMove a b c = \<lparr>mx = a, my = b, mz = c, kind = Rapid\<rparr>"

definition cutMove :: "real \<Rightarrow> real \<Rightarrow> real \<Rightarrow> move" where
  "cutMove a b c = \<lparr>mx = a, my = b, mz = c, kind = Cut\<rparr>"

section \<open>Origin transform: \<^verbatim>\<open>applyOriginTransform\<close>\<close>

text \<open>
  The enumerations are strings in the source. \<open>XY_OTHER\<close> stands for any string that is
  none of the five origins (the \<^verbatim>\<open>default:\<close> branches).
\<close>

datatype XYOrigin = CENTER | BOTTOM_LEFT | BOTTOM_RIGHT | TOP_LEFT | TOP_RIGHT | XY_OTHER

datatype ZOrigin = STOCK_TOP | STOCK_BOTTOM

datatype OperationType = POCKET | CONTOUR | FACING

datatype ContourType = Outside | Inside

record originParams =
  xyOrigin :: XYOrigin
  zOrigin :: ZOrigin
  zOffset :: real

record bbox =
  minX :: real
  minY :: real
  maxX :: real
  maxY :: real

text \<open>
  The body of the first \<^verbatim>\<open>moves.forEach\<close>. All coordinates are finite here, so the
  \<^verbatim>\<open>Number.isFinite\<close> guard never skips a move.
\<close>

definition growBox :: "move \<Rightarrow> bbox \<Rightarrow> bbox" where
  "growBox m b =
     \<lparr>minX = (if mx m < minX b then mx m else minX b),
      minY = (if my m < minY b then my m else minY b),
      maxX = (if mx m > maxX b then mx m else maxX b),
      maxY = (if my m > maxY b then my m else maxY b)\<rparr>"

text \<open>
  The box starts at \<open>(\<infinity>, \<infinity>, -\<infinity>, -\<infinity>)\<close>; the first move replaces all four bounds.
  \<open>None\<close> is the box of the empty move list, where the infinities stay.
\<close>

definition boundingBox :: "move list \<Rightarrow> bbox option" where
  "boundingBox moves =
     (case moves of
        [] \<Rightarrow> None
      | m # ms \<Rightarrow> Some (fold growBox ms \<lparr>minX = mx m, minY = my m, maxX = mx m, maxY = my m\<rparr>))"

text \<open>
  The choice of \<^verbatim>\<open>shiftX\<close>, \<^verbatim>\<open>shiftY\<close>. \<open>facingBounds\<close> is \<open>Some (hw, hh)\<close> or \<open>None\<close> for
  \<^verbatim>\<open>null\<close>; \<open>r\<close> is \<^verbatim>\<open>toolRadiusForXYShift\<close>.
\<close>

definition xyShift ::
  "bbox \<Rightarrow> XYOrigin \<Rightarrow> real \<Rightarrow> OperationType \<Rightarrow> ContourType \<Rightarrow> (real \<times> real) option
     \<Rightarrow> real \<times> real" where
  "xyShift b origin r operation contourType facingBounds =
     (let isFacing = (operation = FACING \<and> facingBounds \<noteq> None);
          contourOutside = (operation = CONTOUR \<and> contourType = Outside)
      in if isFacing then
           (case facingBounds of
              None \<Rightarrow> (0, 0)
            | Some (hw, hh) \<Rightarrow>
                (case origin of
                   BOTTOM_LEFT \<Rightarrow> (hw, hh)
                 | BOTTOM_RIGHT \<Rightarrow> (- hw, hh)
                 | TOP_LEFT \<Rightarrow> (hw, - hh)
                 | TOP_RIGHT \<Rightarrow> (- hw, - hh)
                 | CENTER \<Rightarrow> (0, 0)
                 | XY_OTHER \<Rightarrow> (hw, hh)))
         else if origin \<noteq> CENTER then
           (if contourOutside then
              (case origin of
                 BOTTOM_LEFT \<Rightarrow> (- minX b - r, - minY b - r)
               | BOTTOM_RIGHT \<Rightarrow> (r - maxX b, - minY b - r)
               | TOP_LEFT \<Rightarrow> (- minX b - r, r - maxY b)
               | TOP_RIGHT \<Rightarrow> (r - maxX b, r - maxY b)
               | _ \<Rightarrow> (- minX b - r, - minY b - r))
            else
              (case origin of
                 BOTTOM_LEFT \<Rightarrow> (- minX b + r, - minY b + r)
               | BOTTOM_RIGHT \<Rightarrow> (- maxX b - r, r - minY b)
               | TOP_LEFT \<Rightarrow> (r - minX b, - maxY b - r)
               | TOP_RIGHT \<Rightarrow> (- maxX b - r, - maxY b - r)
               | _ \<Rightarrow> (- minX b + r, - minY b + r)))
         else (- (minX b + maxX b) / 2, - (minY b + maxY b) / 2))"

text \<open>The body of the second \<^verbatim>\<open>moves.forEach\<close>.\<close>

definition shiftMove :: "real \<Rightarrow> real \<Rightarrow> originParams \<Rightarrow> real \<Rightarrow> move \<Rightarrow> move" where
  "shiftMove shiftX shiftY origin totalDepth m =
     (let z = mz m;
          z = (if zOrigin origin = STOCK_BOTTOM then z + totalDepth else z);
          z = z + zOffset origin
      in m\<lparr>mx := mx m + shiftX, my := my m + shiftY, mz := z\<rparr>)"

text \<open>The source updates the moves in place; the embedding returns the new list.\<close>

definition applyOriginTransform ::
  "move list \<Rightarrow> originParams \<Rightarrow> real \<Rightarrow> real \<Rightarrow> OperationType \<Rightarrow> ContourType
     \<Rightarrow> (real \<times> real) option \<Rightarrow> move list" where
  "applyOriginTransform moves origin totalDepth toolRadiusForXYShift operation contourType
       facingBounds =
     (case boundingBox moves of
        None \<Rightarrow> []
      | Some b \<Rightarrow>
          (let (shiftX, shiftY) =
                 xyShift b (xyOrigin origin) toolRadiusForXYShift operation contourType facingBounds
           in map (shiftMove shiftX shiftY origin totalDepth) moves))"

text \<open>A move list of one rapid and one cut move, for the evaluations.\<close>

definition twoMoves :: "move list" where
  "twoMoves = [rapidMove 1 2 10, cutMove 4 6 (- 5)]"


section \<open>Tabs: \<^verbatim>\<open>buildTabConfig\<close> and \<^verbatim>\<open>getZForTabProfile\<close>\<close>









definition tabCount :: "real \<Rightarrow> real \<Rightarrow> nat" where
  "tabCount lengthClosed interval = nat (max 1 (Math_round (ddiv lengthClosed interval)))"








section \<open>Spiral pocket of a circle: \<^verbatim>\<open>generateSpiralPocketCircle\<close>\<close>







text \<open>
  \<^verbatim>\<open>turns = Math.max(1, Math.ceil(radialSpan / stepover))\<close> is an integer taken from
  doubles. \<open>radialSpanD\<close> is \<^verbatim>\<open>radialSpan\<close> as the program holds it,
  \<^verbatim>\<open>(shapeParams.diameter / 2 - toolRadius) - toolRadius\<close> with every step rounded; the
  radii of the path below are the exact ones.
\<close>

definition radialSpanD :: "real \<Rightarrow> real \<Rightarrow> real" where
  "radialSpanD diameter toolRadius = dsub (dsub (ddiv diameter 2) toolRadius) toolRadius"

definition spiralTurns :: "real \<Rightarrow> real \<Rightarrow> nat" where
  "spiralTurns radialSpan stepover = nat (max 1 (Math_ceil (ddiv radialSpan stepover)))"



section \<open>Arc fitting: \<^verbatim>\<open>fitArcsToPoints\<close> and \<^verbatim>\<open>replaceCutRunsWithArcs\<close>\<close>

text \<open>The object \<^verbatim>\<open>{ cx, cy, r }\<close>.\<close>

record circle =
  ccx :: real
  ccy :: real
  cr :: real

definition circleFromThreePoints :: "point \<Rightarrow> point \<Rightarrow> point \<Rightarrow> circle option" where
  "circleFromThreePoints p1 p2 p3 =
     (let x1 = px p1; y1 = py p1; x2 = px p2; y2 = py p2; x3 = px p3; y3 = py p3;
          d = 2 * (x1 * (y2 - y3) + x2 * (y3 - y1) + x3 * (y1 - y2))
      in if \<bar>d\<bar> < 1 / 10000000000 then None
         else
           let cx = ((x1 * x1 + y1 * y1) * (y2 - y3) + (x2 * x2 + y2 * y2) * (y3 - y1)
                       + (x3 * x3 + y3 * y3) * (y1 - y2)) / d;
               cy = ((x1 * x1 + y1 * y1) * (x3 - x2) + (x2 * x2 + y2 * y2) * (x1 - x3)
                       + (x3 * x3 + y3 * y3) * (x2 - x1)) / d;
               r = hypot (x1 - cx) (y1 - cy)
           in Some \<lparr>ccx = cx, ccy = cy, cr = r\<rparr>)"

definition pointToCircleDeviation :: "real \<Rightarrow> real \<Rightarrow> real \<Rightarrow> real \<Rightarrow> real \<Rightarrow> real" where
  "pointToCircleDeviation x y cx cy r = \<bar>hypot (x - cx) (y - cy) - r\<bar>"

definition ARC_FIT_TOLERANCE_MM :: real where
  "ARC_FIT_TOLERANCE_MM = 3 / 100"

text \<open>
  An element of the result of \<^verbatim>\<open>fitArcsToPoints\<close>: \<^verbatim>\<open>{ type: "line", ...p }\<close> or
  \<^verbatim>\<open>{ type: "arc", x, y, z, i, j, clockwise }\<close>.
\<close>

datatype fitted = FLine point | FArc real real real real real bool

text \<open>
  The test of the loop over \<open>k\<close>: every point strictly between \<open>i\<close> and \<open>j - 1\<close> deviates
  from the circle by at most the tolerance.
\<close>

definition runFitsCircle :: "point list \<Rightarrow> nat \<Rightarrow> nat \<Rightarrow> circle \<Rightarrow> bool" where
  "runFitsCircle points i j c =
     list_all (\<lambda>k. \<not> pointToCircleDeviation (px (points ! k)) (py (points ! k))
                         (ccx c) (ccy c) (cr c) > ARC_FIT_TOLERANCE_MM)
       [i + 1 ..< j - 1]"

text \<open>
  The loop \<^verbatim>\<open>for (j = i + 3; j <= points.length; j++)\<close> with its two \<^verbatim>\<open>break\<close>s; the last
  argument is \<^verbatim>\<open>bestJ\<close>.
\<close>

function findBestJ :: "point list \<Rightarrow> nat \<Rightarrow> nat \<Rightarrow> nat \<Rightarrow> nat" where
  "findBestJ points i j bestJ =
     (if j \<le> length points then
        (case circleFromThreePoints (points ! i) (points ! ((i + j) div 2)) (points ! (j - 1)) of
           None \<Rightarrow> bestJ
         | Some c \<Rightarrow>
             if runFitsCircle points i j c then findBestJ points i (j + 1) j else bestJ)
      else bestJ)"
  by pat_completeness auto
termination
  by (relation "measure (\<lambda>(points, i, j, bestJ). Suc (length points) - j)") auto

text \<open>The loop \<^verbatim>\<open>while (i < points.length)\<close>; \<open>z\<close> is \<^verbatim>\<open>points[0].z\<close>.\<close>

function fitLoop :: "point list \<Rightarrow> real \<Rightarrow> nat \<Rightarrow> fitted list" where
  "fitLoop points z i =
     (if i < length points then
        (if i + 2 \<ge> length points then FLine (points ! i) # fitLoop points z (i + 1)
         else
           let p0 = points ! i;
               bestJ = findBestJ points i (i + 3) (i + 2)
           in if bestJ > i + 2 then
                (let pEnd = points ! (bestJ - 1);
                     pMid = points ! ((i + bestJ) div 2)
                 in case circleFromThreePoints p0 pMid pEnd of
                      Some c \<Rightarrow>
                        (let dx = px p0 - ccx c;
                             dy = py p0 - ccy c;
                             ex = px pEnd - ccx c;
                             ey = py pEnd - ccy c;
                             cross = dx * ey - dy * ex
                         in FArc (px pEnd) (py pEnd) z (ccx c - px p0) (ccy c - py p0) (cross < 0)
                              # fitLoop points z bestJ)
                    | None \<Rightarrow> FLine p0 # fitLoop points z (i + 1))
              else FLine p0 # fitLoop points z (i + 1))
      else [])"
  by pat_completeness auto
termination
  by (relation "measure (\<lambda>(points, z, i). length points - i)") auto

definition fitArcsToPoints :: "point list \<Rightarrow> fitted list" where
  "fitArcsToPoints points =
     (if length points < 3 then map FLine points
      else fitLoop points (pz (points ! 0)) 0)"

text \<open>The move pushed for a fitted segment.\<close>

fun fittedMove :: "fitted \<Rightarrow> move" where
  "fittedMove (FArc x y z i j clockwise) = \<lparr>mx = x, my = y, mz = z, kind = Arc i j clockwise\<rparr>"
| "fittedMove (FLine p) = \<lparr>mx = px p, my = py p, mz = pz p, kind = Cut\<rparr>"

definition movePoint :: "move \<Rightarrow> point" where
  "movePoint m = \<lparr>px = mx m, py = my m, pz = mz m\<rparr>"

definition isCut :: "move \<Rightarrow> bool" where
  "isCut m = (kind m = Cut)"

text \<open>
  \<^verbatim>\<open>replaceCutRunsWithArcs\<close>: a move that is no cut is copied; a maximal run of cut
  moves is collected (whatever their \<open>z\<close>), fitted, and its segments are pushed. The
  source then replaces the contents of \<^verbatim>\<open>moves\<close> by the result.
\<close>

function replaceCutRunsWithArcs :: "move list \<Rightarrow> move list" where
  "replaceCutRunsWithArcs [] = []"
| "replaceCutRunsWithArcs (m # ms) =
     (if \<not> isCut m then m # replaceCutRunsWithArcs ms
      else
        let cutRun = map movePoint (takeWhile isCut (m # ms))
        in map fittedMove (fitArcsToPoints cutRun)
             @ replaceCutRunsWithArcs (dropWhile isCut (m # ms)))"
  by pat_completeness auto
termination
  by (relation "measure length") (auto simp: length_dropWhile_le less_Suc_eq_le)

text \<open>
  A cut run as \<^verbatim>\<open>addLayerForPath\<close> emits it: the cut to the surface at \<open>z = 0\<close>, the plunge
  to \<open>z = -1\<close>, then points of the unit circle at \<open>z = -1\<close>.
\<close>

definition plungeAndQuarterArc :: "move list" where
  "plungeAndQuarterArc =
     [cutMove 1 0 0, cutMove 1 0 (- 1), cutMove (3 / 5) (4 / 5) (- 1), cutMove 0 1 (- 1)]"

text \<open>The points of that run.\<close>

definition quarterArcPoints :: "point list" where
  "quarterArcPoints = [\<lparr>px = 1, py = 0, pz = 0\<rparr>, \<lparr>px = 1, py = 0, pz = - 1\<rparr>,
           \<lparr>px = 3 / 5, py = 4 / 5, pz = - 1\<rparr>, \<lparr>px = 0, py = 1, pz = - 1\<rparr>]"


section \<open>Pocket of the size of the tool: \<^verbatim>\<open>generateToolpath\<close> and \<^verbatim>\<open>addLayerForPath\<close>\<close>

text \<open>
  \<^verbatim>\<open>generateToolpath\<close> is embedded for a pocket operation on the four shapes that reach
  its \<^verbatim>\<open>equalToToolDiameter\<close> branch besides the patterned holes: circle, square,
  rectangle and ellipse; the field \<^verbatim>\<open>size\<close> of the square is \<open>side\<close> here. Of
  \<^verbatim>\<open>cutParams\<close> the fields are kept that this path reads.
\<close>

datatype shapeParams =
    Circle real
  | Square real
  | Rectangle real real
  | Ellipse real real

record cutParams =
  toolDiameter :: real
  totalDepth :: real
  stepdown :: real
  stepover :: real
  safeHeight :: real
  leadInAboveMm :: real

fun getShapeMinSize :: "shapeParams \<Rightarrow> real" where
  "getShapeMinSize (Circle diameter) = diameter"
| "getShapeMinSize (Square side) = side"
| "getShapeMinSize (Rectangle width height) = min width height"
| "getShapeMinSize (Ellipse major minor) = min major minor"

definition epsSize :: real where
  "epsSize = 1 / 1000000"

definition equalToToolDiameter :: "shapeParams \<Rightarrow> cutParams \<Rightarrow> bool" where
  "equalToToolDiameter shape cp = (\<bar>getShapeMinSize shape - toolDiameter cp\<bar> \<le> epsSize)"

text \<open>The branch \<^verbatim>\<open>if (equalToToolDiameter)\<close> of the pocket paths.\<close>

fun pocketPathsEqualToTool :: "shapeParams \<Rightarrow> cutParams \<Rightarrow> point list list" where
  "pocketPathsEqualToTool (Circle diameter) cp = [[pt 0 0]]"
| "pocketPathsEqualToTool (Ellipse major minor) cp = [[pt 0 0]]"
| "pocketPathsEqualToTool (Square side) cp = [[pt 0 0]]"
| "pocketPathsEqualToTool (Rectangle w h) cp =
     (let toolRadius = toolDiameter cp / 2
      in if \<bar>w - toolDiameter cp\<bar> \<le> epsSize \<and> \<bar>h - toolDiameter cp\<bar> \<le> epsSize then [[pt 0 0]]
         else if \<bar>w - toolDiameter cp\<bar> \<le> epsSize then
           (let halfLine = max (h / 2 - toolRadius) 0
            in [[pt 0 (- halfLine), pt 0 halfLine]])
         else
           (let halfLine = max (w / 2 - toolRadius) 0
            in [[pt (- halfLine) 0, pt halfLine 0]]))"

text \<open>
  The pocket paths. \<open>spiralPaths\<close> stands for the \<^verbatim>\<open>else\<close> branch, the spiral strategies
  of the shapes, which is a parameter here.
\<close>

definition pocketPaths ::
  "(shapeParams \<Rightarrow> cutParams \<Rightarrow> point list list) \<Rightarrow> shapeParams \<Rightarrow> cutParams
     \<Rightarrow> point list list" where
  "pocketPaths spiralPaths shape cp =
     (if equalToToolDiameter shape cp then pocketPathsEqualToTool shape cp
      else spiralPaths shape cp)"

text \<open>
  \<^verbatim>\<open>addLayerForPath\<close> up to the end of its single-point case. \<open>longPath\<close> stands for
  the rest of the function, which handles a path of two or more points, and is a
  parameter here; the arguments that only this rest reads (\<^verbatim>\<open>plungeOutside\<close>,
  \<^verbatim>\<open>entryMethod\<close>, the tab configuration, the helix data) are left to it. The source
  pushes onto \<^verbatim>\<open>moves\<close>; the embedding returns the new list.
\<close>

definition retractToSafe :: "move list \<Rightarrow> real \<Rightarrow> move list" where
  "retractToSafe moves safeZ =
     (if moves \<noteq> [] \<and> mz (last moves) < safeZ - 1 / 1000000
      then moves @ [rapidMove (mx (last moves)) (my (last moves)) safeZ]
      else moves)"

definition addLayerForPath ::
  "(move list \<Rightarrow> point list \<Rightarrow> real \<Rightarrow> bool \<Rightarrow> move list) \<Rightarrow> move list \<Rightarrow> point list
     \<Rightarrow> real \<Rightarrow> cutParams \<Rightarrow> bool \<Rightarrow> real \<Rightarrow> move list" where
  "addLayerForPath longPath moves path depthZ cp isFirstPathAtDepth safeZ =
     (case path of
        [] \<Rightarrow> moves
      | [start] \<Rightarrow>
          (let leadInAbove = max 0 (leadInAboveMm cp);
               moves1 = retractToSafe moves safeZ;
               moves2 = moves1 @ [rapidMove (px start) (py start) safeZ];
               moves3 = (if safeZ > leadInAbove
                         then moves2 @ [rapidMove (px start) (py start) leadInAbove]
                         else moves2)
           in moves3 @ [cutMove (px start) (py start) 0, cutMove (px start) (py start) depthZ])
      | _ \<Rightarrow> longPath moves path depthZ isFirstPathAtDepth)"

text \<open>
  \<^verbatim>\<open>depths.forEach((depthZ, depthIndex) => { ... pocketPaths.forEach((path, idx) => addLayerForPath(...)) })\<close>
  for the pocket operation; \<^verbatim>\<open>isFirstPathAtDepth\<close> is \<^verbatim>\<open>idx === 0\<close>.
\<close>

definition pocketLayers ::
  "(move list \<Rightarrow> point list \<Rightarrow> real \<Rightarrow> bool \<Rightarrow> move list) \<Rightarrow> point list list \<Rightarrow> real list
     \<Rightarrow> cutParams \<Rightarrow> move list" where
  "pocketLayers longPath paths depths cp =
     fold (\<lambda>depthZ moves.
             fold (\<lambda>(idx, path) moves'.
                     addLayerForPath longPath moves' path depthZ cp (idx = 0) (safeHeight cp))
                  (enumerate 0 paths) moves)
          depths []"

text \<open>
  The end of the toolpath for a pocket: a short cut towards the centre when the last
  move is off-centre, then the retract to the safe height.
\<close>

definition finalRetract :: "move list \<Rightarrow> real \<Rightarrow> move list" where
  "finalRetract moves safeZ =
     (if moves \<noteq> [] \<and> mz (last moves) < safeZ - 1 / 1000000 then
        (let lst = last moves;
             dx = 0 - mx lst;
             dy = 0 - my lst;
             dist = hypot dx dy;
             pullbackMm = 3 / 2
         in if dist > 1 / 1000000 \<and> pullbackMm > 0 then
              (let step = min pullbackMm dist;
                   endX = mx lst + (dx / dist) * step;
                   endY = my lst + (dy / dist) * step
               in moves @ [cutMove endX endY (mz lst), rapidMove endX endY safeZ])
            else moves @ [rapidMove (mx lst) (my lst) safeZ])
      else moves)"

definition generateToolpathPocket ::
  "(move list \<Rightarrow> point list \<Rightarrow> real \<Rightarrow> bool \<Rightarrow> move list) \<Rightarrow> (shapeParams \<Rightarrow> cutParams \<Rightarrow> point list list)
     \<Rightarrow> shapeParams \<Rightarrow> cutParams \<Rightarrow> originParams \<Rightarrow> ContourType \<Rightarrow> move list" where
  "generateToolpathPocket longPath spiralPaths shape cp origin contourType =
     (let toolRadius = toolDiameter cp / 2;
          depths = computeDepthLevels (totalDepth cp) (stepdown cp);
          paths = pocketPaths spiralPaths shape cp;
          moves = pocketLayers longPath paths depths cp;
          moves = finalRetract moves (safeHeight cp)
      in applyOriginTransform moves origin (totalDepth cp) toolRadius POCKET contourType None)"

text \<open>
  The drill of the claim, for the comparison with the toolpath of the program.
  \<open>drillAtCentre\<close> is the sequence of one depth level: the rapid to the centre at the safe
  height, the rapid down to the lead-in height if the safe height exceeds it, the cuts to
  \<open>z = 0\<close> and to the layer depth. \<open>retractAtCentre\<close> is the rapid at the centre back to the
  safe height, which follows a level that ends below it. \<open>drillLevel\<close> is a level with its
  retract, \<open>drillToolpath\<close> the levels in the order of the depths.
\<close>

definition drillAtCentre :: "cutParams \<Rightarrow> real \<Rightarrow> move list" where
  "drillAtCentre cp depthZ =
     [rapidMove 0 0 (safeHeight cp)]
     @ (if safeHeight cp > max 0 (leadInAboveMm cp)
        then [rapidMove 0 0 (max 0 (leadInAboveMm cp))] else [])
     @ [cutMove 0 0 0, cutMove 0 0 depthZ]"

definition retractAtCentre :: "cutParams \<Rightarrow> real \<Rightarrow> move list" where
  "retractAtCentre cp depthZ =
     (if depthZ < safeHeight cp - 1 / 1000000 then [rapidMove 0 0 (safeHeight cp)] else [])"

definition drillLevel :: "cutParams \<Rightarrow> real \<Rightarrow> move list" where
  "drillLevel cp depthZ = drillAtCentre cp depthZ @ retractAtCentre cp depthZ"

definition drillToolpath :: "cutParams \<Rightarrow> real list \<Rightarrow> move list" where
  "drillToolpath cp depths = concat (map (drillLevel cp) depths)"

text \<open>The spec's example: tool diameter 6, depth 5 in steps of 2.5, safe height 10.\<close>

definition exampleCut :: cutParams where
  "exampleCut = \<lparr>toolDiameter = 6, totalDepth = 5, stepdown = 5 / 2, stepover = 3,
                  safeHeight = 10, leadInAboveMm = 2\<rparr>"

section \<open>Auxiliary facts\<close>


lemma hypot_0_right [simp]: "hypot a 0 = \<bar>a\<bar>"
  by (simp add: hypot_def)

lemma hypot_0_left [simp]: "hypot 0 b = \<bar>b\<bar>"
  by (simp add: hypot_def)

lemma pt_sel [simp]: "px (pt a b) = a" "py (pt a b) = b" "pz (pt a b) = 0"
  by (simp_all add: pt_def)

lemma upt_0_4: "[0 ..< 4] = [0, Suc 0, 2, 3]"
  by (simp add: upt_rec)

lemma less_4_cases: "i < 4 \<Longrightarrow> i = 0 \<or> i = Suc 0 \<or> i = 2 \<or> i = 3"
  by auto



lemma move_sel [simp]:
  "mx (rapidMove a b c) = a" "my (rapidMove a b c) = b" "mz (rapidMove a b c) = c"
  "kind (rapidMove a b c) = Rapid"
  "mx (cutMove a b c) = a" "my (cutMove a b c) = b" "mz (cutMove a b c) = c"
  "kind (cutMove a b c) = Cut"
  by (simp_all add: rapidMove_def cutMove_def)

subsection \<open>Rounding to the double format\<close>

lemma roundEven_int: "roundEven (real_of_int m) = m"
  by (simp add: roundEven_def)

text \<open>The value of \<open>dbl\<close> on a number of known binary exponent.\<close>

lemma dbl_eval:
  assumes "2 powr real_of_int e \<le> \<bar>x\<bar>" and "\<bar>x\<bar> < 2 powr real_of_int (e + 1)"
  shows "dbl x =
    real_of_int (roundEven (x / 2 powr real_of_int (e - 52))) * 2 powr real_of_int (e - 52)"
proof -
  have "0 < 2 powr real_of_int e" by simp
  then have x: "0 < \<bar>x\<bar>" using assms(1) by linarith
  have "\<lfloor>log 2 \<bar>x\<bar>\<rfloor> = e"
    using floor_log_eq_powr_iff[of "\<bar>x\<bar>" 2 e] x assms by simp
  then show ?thesis using x by (simp add: dbl_def Let_def)
qed

text \<open>A number with a significand of at most 53 bits is a double: \<open>dbl\<close> leaves it as it is.\<close>

lemma dbl_exact:
  assumes x: "x = real_of_int m * 2 powr real_of_int k" and m: "\<bar>m\<bar> < 2 ^ 53"
  shows "dbl x = x"
proof (cases "m = 0")
  case True
  then show ?thesis using x by (simp add: dbl_def)
next
  case False
  then have x0: "x \<noteq> 0" using x by simp
  define e where "e = \<lfloor>log 2 \<bar>x\<bar>\<rfloor>"
  have ax: "\<bar>x\<bar> = real_of_int \<bar>m\<bar> * 2 powr real_of_int k"
    unfolding x by (simp add: abs_mult)
  have b: "2 powr real_of_int e \<le> \<bar>x\<bar>"
    using floor_log_eq_powr_iff[of "\<bar>x\<bar>" 2 e] x0 by (simp add: e_def)
  have ke: "e - 52 \<le> k"
  proof (rule ccontr)
    assume "\<not> e - 52 \<le> k"
    then have "k + 53 \<le> e" by simp
    then have "2 powr real_of_int (k + 53) \<le> 2 powr real_of_int e" by simp
    moreover have "2 powr real_of_int (k + 53) = 2 ^ 53 * 2 powr real_of_int k"
      by (simp add: powr_add)
    moreover have "real_of_int \<bar>m\<bar> < 2 ^ 53"
      using m by (metis of_int_less_iff of_int_numeral of_int_power)
    then have "real_of_int \<bar>m\<bar> * 2 powr real_of_int k < 2 ^ 53 * 2 powr real_of_int k"
      by (intro mult_strict_right_mono) simp_all
    ultimately show False using b ax by linarith
  qed
  define j where "j = nat (k - (e - 52))"
  have kj: "real_of_int k = real_of_int (e - 52) + real j" using ke by (simp add: j_def)
  have p: "2 powr real_of_int k = 2 powr real_of_int (e - 52) * 2 ^ j"
    unfolding kj by (simp add: powr_add powr_realpow)
  have "x / 2 powr real_of_int (e - 52) = real_of_int (m * 2 ^ j)"
    unfolding x p by simp
  then have "roundEven (x / 2 powr real_of_int (e - 52)) = m * 2 ^ j"
    using roundEven_int by metis
  then have "dbl x = real_of_int (m * 2 ^ j) * 2 powr real_of_int (e - 52)"
    using x0 by (simp add: dbl_def Let_def e_def)
  also have "\<dots> = x" unfolding x p by simp
  finally show ?thesis .
qed

lemma dbl_int: "\<bar>m\<bar> < 2 ^ 53 \<Longrightarrow> dbl (real_of_int m) = real_of_int m"
  using dbl_exact[of "real_of_int m" m 0] by simp

lemma dbl_dyadic: "\<bar>m\<bar> < 2 ^ 53 \<Longrightarrow> dbl (real_of_int m / 2 ^ j) = real_of_int m / 2 ^ j"
  using dbl_exact[of "real_of_int m / 2 ^ j" m "- int j"]
  by (simp add: powr_minus powr_realpow field_simps)

lemma dbl_0: "dbl 0 = 0"
  by (simp add: dbl_def)

lemma dbl_small_ints:
  "dbl 1 = 1" "dbl (- 1) = - 1" "dbl 2 = 2" "dbl (- 2) = - 2" "dbl 3 = 3" "dbl 5 = 5"
  "dbl 10 = 10" "dbl 16 = 16" "dbl 19 = 19" "dbl 20 = 20" "dbl 22 = 22" "dbl 25 = 25"
  "dbl 30 = 30" "dbl 40 = 40" "dbl 50 = 50"
  using dbl_int[of 1] dbl_int[of "- 1"] dbl_int[of 2] dbl_int[of "- 2"] dbl_int[of 3]
    dbl_int[of 5] dbl_int[of 10] dbl_int[of 16] dbl_int[of 19] dbl_int[of 20] dbl_int[of 22]
    dbl_int[of 25] dbl_int[of 30] dbl_int[of 40] dbl_int[of 50]
  by simp_all

lemma dbl_small_dyadics:
  "dbl (5 / 2) = 5 / 2" "dbl (- (5 / 2)) = - (5 / 2)"
  "dbl (1 / 4) = 1 / 4" "dbl (1 / 64) = 1 / 64" "dbl (- (1 / 64)) = - (1 / 64)"
  "dbl (1 / 32) = 1 / 32" "dbl (- (1 / 32)) = - (1 / 32)"
  "dbl (5 / 32) = 5 / 32" "dbl (5 / 16) = 5 / 16"
  using dbl_dyadic[of 5 1] dbl_dyadic[of "- 5" 1] dbl_dyadic[of 1 2] dbl_dyadic[of 1 6]
    dbl_dyadic[of "- 1" 6] dbl_dyadic[of 1 5] dbl_dyadic[of "- 1" 5] dbl_dyadic[of 5 5]
    dbl_dyadic[of 5 4]
  by simp_all

text \<open>\<open>0.3\<close> is not a double; the nearest one is \<open>5404319552844595 / 2\<^sup>5\<^sup>4\<close>.\<close>

lemma dbl_three_tenths: "dbl (3 / 10) = 5404319552844595 / 18014398509481984"
proof -
  have "dbl (3 / 10) =
      real_of_int (roundEven ((3 / 10) / 2 powr real_of_int (- 2 - 52)))
        * 2 powr real_of_int (- 2 - 52)"
    by (rule dbl_eval) (simp_all add: powr_minus)
  then show ?thesis
    by (simp add: powr_minus roundEven_def Let_def)
qed

subsection \<open>The depth levels of the spec's example\<close>

lemma computeDepthLevels_example: "computeDepthLevels 5 (5 / 2) = [- (5 / 2), - 5]"
proof -
  have n: "numLayers 5 (5 / 2) = 2"
    by (simp add: numLayers_def Math_ceil_def ddiv_def dbl_small_ints dbl_small_dyadics)
  have r1: "round1 (5 / 2) = 5 / 2"
    by (simp add: round1_def Math_round_def ddiv_def dmul_def dbl_small_ints dbl_small_dyadics)
  have r2: "round1 5 = 5"
    by (simp add: round1_def Math_round_def ddiv_def dmul_def dbl_small_ints dbl_small_dyadics)
  have z1: "layerZ 5 2 (Suc 0) = - (5 / 2)"
    by (simp add: layerZ_def ddiv_def dmul_def dbl_small_ints dbl_small_dyadics r1)
  have z2: "layerZ 5 2 (Suc (Suc 0)) = - 5"
    by (simp add: layerZ_def r2)
  show ?thesis
    by (simp add: computeDepthLevels_def n upt_rec z1 z2)
qed

lemma numLayers_pos: "0 < numLayers t s"
  by (simp add: numLayers_def)

lemma computeDepthLevels_nonempty: "computeDepthLevels t s \<noteq> []"
proof -
  have "length (computeDepthLevels t s) = numLayers t s"
    by (simp add: computeDepthLevels_def Let_def)
  then show ?thesis using numLayers_pos[of t s] by auto
qed

section \<open>Facts about the contour offset\<close>


lemma length_fold_dedupeStep: "length (fold dedupeStep xs acc) \<le> length acc + length xs"
proof (induction xs arbitrary: acc)
  case Nil
  then show ?case by simp
next
  case (Cons p ps)
  have "length (dedupeStep p acc) \<le> Suc (length acc)"
    by (simp add: dedupeStep_def)
  with Cons[of "dedupeStep p acc"] show ?case by simp
qed

lemma length_dedupe_le: "length (dedupe xs) \<le> length xs"
  using length_fold_dedupeStep[of xs "[]"] by (simp add: dedupe_def)

lemma length_openContour_le: "length (openContour c) \<le> length c"
  by (simp add: openContour_def)

lemma cleanupLoop_length:
  "cleanupLoop k pts = Some r \<Longrightarrow> 3 \<le> length pts \<Longrightarrow> 3 \<le> length r"
proof (induction k arbitrary: pts)
  case 0
  then show ?case by simp
next
  case (Suc k)
  obtain nxt changed where cp: "cleanupPass pts = (nxt, changed)"
    by (cases "cleanupPass pts")
  show ?case
  proof (cases "length nxt < 3")
    case True
    with Suc.prems cp show ?thesis by simp
  next
    case False
    show ?thesis
    proof (cases changed)
      case True
      with Suc.prems cp False have "cleanupLoop k nxt = Some r" by simp
      then show ?thesis using False by (intro Suc.IH) auto
    next
      case False
      with Suc.prems cp \<open>\<not> length nxt < 3\<close> show ?thesis by auto
    qed
  qed
qed

lemma those_length: "those xs = Some ys \<Longrightarrow> length ys = length xs"
  by (induction xs arbitrary: ys) (auto split: option.splits)

lemma those_nth: "those xs = Some ys \<Longrightarrow> i < length xs \<Longrightarrow> xs ! i = Some (ys ! i)"
proof (induction xs arbitrary: ys i)
  case Nil
  then show ?case by simp
next
  case (Cons x xs)
  then show ?case by (cases i) (auto split: option.splits)
qed

lemma those_None_iff: "those xs = None \<longleftrightarrow> None \<in> set xs"
  by (induction xs) (auto split: option.splits)

lemma offsetVertex_None_iff: "offsetVertex pts s d z0 i = None \<longleftrightarrow> zeroEdgeAt pts i"
  by (simp add: offsetVertex_def zeroEdgeAt_def Let_def)

lemma offsetVertex_pz: "offsetVertex pts s d z0 i = Some p \<Longrightarrow> pz p = z0"
  by (auto simp: offsetVertex_def Let_def split: if_splits)

lemma offsetPolygon_None_iff:
  "offsetPolygon pts d = None \<longleftrightarrow> (\<exists>i < length pts. zeroEdgeAt pts i)"
proof -
  have "offsetPolygon pts d = None \<longleftrightarrow>
        (\<exists>i \<in> set [0 ..< length pts]. offsetVertex pts (windingSign pts) d (pz (pts ! 0)) i = None)"
    unfolding offsetPolygon_def those_None_iff set_map image_iff
    by (metis (no_types, lifting))
  then show ?thesis by (auto simp: offsetVertex_None_iff)
qed

lemma offsetPolygon_length: "offsetPolygon pts d = Some res \<Longrightarrow> length res = length pts"
  by (auto simp: offsetPolygon_def dest: those_length)

lemma offsetPolygon_pz0:
  assumes "offsetPolygon pts d = Some res" "0 < length pts"
  shows "pz (res ! 0) = pz (pts ! 0)"
proof -
  have "map (offsetVertex pts (windingSign pts) d (pz (pts ! 0))) [0 ..< length pts] ! 0 = Some (res ! 0)"
    using assms by (intro those_nth) (auto simp: offsetPolygon_def)
  then have "offsetVertex pts (windingSign pts) d (pz (pts ! 0)) 0 = Some (res ! 0)"
    using assms(2) by (simp add: nth_map_upt del: upt_Suc)
  then show ?thesis by (rule offsetVertex_pz)
qed

lemma offsetCleaned_cases:
  assumes "3 \<le> length pts"
  shows "(\<exists>f. offsetCleaned pts d = Inl f) \<longleftrightarrow>
           ((\<exists>i < length pts. zeroEdgeAt pts i)
            \<or> (\<exists>res. offsetPolygon pts d = Some res \<and>
                  (\<bar>polygonSignedArea2 res\<bar> < 1 / 1000000
                   \<or> polygonSignedArea2 res * polygonSignedArea2 pts < 0)))"
    and "offsetCleaned pts d = Inl f \<Longrightarrow> failReason f \<noteq> None"
    and "offsetCleaned pts d = Inr r \<Longrightarrow> 4 \<le> length r \<and> last r = hd r"
proof -
  show "(\<exists>f. offsetCleaned pts d = Inl f) \<longleftrightarrow>
           ((\<exists>i < length pts. zeroEdgeAt pts i)
            \<or> (\<exists>res. offsetPolygon pts d = Some res \<and>
                  (\<bar>polygonSignedArea2 res\<bar> < 1 / 1000000
                   \<or> polygonSignedArea2 res * polygonSignedArea2 pts < 0)))"
  proof (cases "offsetPolygon pts d")
    case None
    then show ?thesis
      using offsetPolygon_None_iff[of pts d] by (simp add: offsetCleaned_def)
  next
    case (Some res)
    then have "\<not> (\<exists>i < length pts. zeroEdgeAt pts i)"
      using offsetPolygon_None_iff[of pts d] by simp
    moreover have "length res = length pts" using Some by (rule offsetPolygon_length)
    ultimately show ?thesis using Some assms by (simp add: offsetCleaned_def)
  qed
  show "failReason f \<noteq> None" if "offsetCleaned pts d = Inl f"
  proof (cases "offsetPolygon pts d")
    case None
    with that show ?thesis by (auto simp: offsetCleaned_def)
  next
    case (Some res)
    then have "length res = length pts" by (rule offsetPolygon_length)
    with that Some assms show ?thesis
      by (auto simp: offsetCleaned_def split: if_splits)
  qed
  show "4 \<le> length r \<and> last r = hd r" if "offsetCleaned pts d = Inr r"
  proof (cases "offsetPolygon pts d")
    case None
    with that show ?thesis by (simp add: offsetCleaned_def)
  next
    case (Some res)
    then have len: "length res = length pts" by (rule offsetPolygon_length)
    have r: "r = res @ [(res ! 0)\<lparr>pz := pz (pts ! 0)\<rparr>]"
      using that Some by (auto simp: offsetCleaned_def split: if_splits)
    have "pz (res ! 0) = pz (pts ! 0)"
      using Some assms by (intro offsetPolygon_pz0) auto
    then have "(res ! 0)\<lparr>pz := pz (pts ! 0)\<rparr> = res ! 0" by simp
    moreover have "res \<noteq> []" using len assms by auto
    ultimately show ?thesis using r len assms by (simp add: hd_append hd_conv_nth)
  qed
qed

lemma cleanupPass_unchanged:
  assumes "\<And>i. i < length pts \<Longrightarrow> cleanupVertex pts i = (Some (pts ! i), False)"
  shows "cleanupPass pts = (pts, False)"
proof -
  have m: "map (cleanupVertex pts) [0 ..< length pts] = map (\<lambda>i. (Some (pts ! i), False)) [0 ..< length pts]"
    by (rule map_cong) (auto simp: assms)
  have "concat (map (\<lambda>r. case fst r of None \<Rightarrow> [] | Some p \<Rightarrow> [p])
          (map (\<lambda>i. (Some (pts ! i), False)) [0 ..< length pts])) = map ((!) pts) [0 ..< length pts]"
    by (induction pts rule: rev_induct) (simp_all add: nth_append comp_def cong: map_cong)
  then have "concat (map (\<lambda>r. case fst r of None \<Rightarrow> [] | Some p \<Rightarrow> [p])
          (map (\<lambda>i. (Some (pts ! i), False)) [0 ..< length pts])) = pts"
    by (simp add: map_nth)
  moreover have "\<not> list_ex snd (map (\<lambda>i. (Some (pts ! i), False)) [0 ..< length pts])"
    by (simp add: list_ex_iff)
  ultimately show ?thesis
    unfolding cleanupPass_def m by (simp add: Let_def)
qed

lemma cleanupLoop_unchanged:
  assumes "\<And>i. i < length pts \<Longrightarrow> cleanupVertex pts i = (Some (pts ! i), False)"
    and "3 \<le> length pts"
  shows "cleanupLoop 3 pts = Some pts"
  using cleanupPass_unchanged[OF assms(1)] assms(2)
  by (simp add: numeral_3_eq_3)

lemma contourOffset_eval:
  assumes "openContour c = pts" "dedupe pts = pts" "3 \<le> length pts" "d \<noteq> 0"
    and "cleanupLoop 3 pts = Some cleaned"
  shows "contourOffset c d = offsetCleaned cleaned d"
proof -
  have "length pts \<le> length c"
    using length_take[of "length c - 1" c] assms(1) by (auto simp: openContour_def split: if_splits)
  then have "\<not> length c < 3" using assms(3) by simp
  then show ?thesis using assms by (simp add: contourOffset_def Let_def)
qed

lemma offsetCleaned_eval:
  assumes "offsetPolygon pts d = Some res" "3 \<le> length res"
    and "\<not> \<bar>polygonSignedArea2 res\<bar> < 1 / 1000000"
    and "\<not> polygonSignedArea2 res * polygonSignedArea2 pts < 0"
  shows "offsetCleaned pts d = Inr (res @ [(res ! 0)\<lparr>pz := pz (pts ! 0)\<rparr>])"
  using assms by (simp add: offsetCleaned_def)

lemma area4:
  "polygonSignedArea2 [pt a b, pt c d, pt e f, pt g h] =
     (c - a) * (d + b) + (e - c) * (f + d) + (g - e) * (h + f) + (a - g) * (b + h)"
  by (simp add: polygonSignedArea2_def areaTerm_def upt_0_4)

lemma offsetPolygon4:
  assumes "length pts = 4" "pz (pts ! 0) = z0" "windingSign pts = s"
    "offsetVertex pts s d z0 0 = Some a" "offsetVertex pts s d z0 (Suc 0) = Some b"
    "offsetVertex pts s d z0 2 = Some c" "offsetVertex pts s d z0 3 = Some e"
  shows "offsetPolygon pts d = Some [a, b, c, e]"
  unfolding offsetPolygon_def using assms by (simp add: upt_0_4)

subsection \<open>Evaluation on the counter-clockwise unit square\<close>

lemma squareCCW_open: "openContour (squareCCW @ [pt 0 0]) = squareCCW"
  by (simp add: openContour_def isClosed_def squareCCW_def)

lemma squareCCW_dedupe: "dedupe squareCCW = squareCCW"
  by (simp add: dedupe_def dedupeStep_def tol_def squareCCW_def)

lemma squareCCW_cleanup: "cleanupLoop 3 squareCCW = Some squareCCW"
proof (rule cleanupLoop_unchanged)
  fix i assume "i < length squareCCW"
  then have "i < 4" by (simp add: squareCCW_def)
  then show "cleanupVertex squareCCW i = (Some (squareCCW ! i), False)"
    by (auto dest!: less_4_cases simp: cleanupVertex_def squareCCW_def minLen_def Let_def)
qed (simp add: squareCCW_def)

lemma squareCCW_area: "polygonSignedArea2 squareCCW = - 2"
  by (simp add: squareCCW_def area4)

lemma squareCCW_offsetPolygon:
  "offsetPolygon squareCCW (1 / 4) =
     Some [pt (- (1 / 4)) (- (1 / 4)), pt (5 / 4) (- (1 / 4)), pt (5 / 4) (5 / 4), pt (- (1 / 4)) (5 / 4)]"
proof (rule offsetPolygon4[where s = "- 1" and ?z0.0 = 0])
  show "windingSign squareCCW = - 1" by (simp add: windingSign_def squareCCW_area)
qed (simp_all add: squareCCW_def offsetVertex_def minLen_def Let_def pt_def)

lemma squareCCW_offset:
  "contourOffset (squareCCW @ [pt 0 0]) (1 / 4) =
     Inr [pt (- (1 / 4)) (- (1 / 4)), pt (5 / 4) (- (1 / 4)), pt (5 / 4) (5 / 4),
          pt (- (1 / 4)) (5 / 4), pt (- (1 / 4)) (- (1 / 4))]"
proof -
  have "contourOffset (squareCCW @ [pt 0 0]) (1 / 4) = offsetCleaned squareCCW (1 / 4)"
    by (rule contourOffset_eval[OF squareCCW_open squareCCW_dedupe _ _ squareCCW_cleanup])
       (simp_all add: squareCCW_def)
  also have "\<dots> = Inr ([pt (- (1 / 4)) (- (1 / 4)), pt (5 / 4) (- (1 / 4)), pt (5 / 4) (5 / 4),
          pt (- (1 / 4)) (5 / 4)] @ [([pt (- (1 / 4)) (- (1 / 4)), pt (5 / 4) (- (1 / 4)), pt (5 / 4) (5 / 4),
          pt (- (1 / 4)) (5 / 4)] ! 0)\<lparr>pz := pz (squareCCW ! 0)\<rparr>])"
    by (rule offsetCleaned_eval[OF squareCCW_offsetPolygon]) (simp_all add: area4 squareCCW_area)
  also have "\<dots> = Inr [pt (- (1 / 4)) (- (1 / 4)), pt (5 / 4) (- (1 / 4)), pt (5 / 4) (5 / 4),
          pt (- (1 / 4)) (5 / 4), pt (- (1 / 4)) (- (1 / 4))]"
    by (simp add: squareCCW_def pt_def)
  finally show ?thesis .
qed


subsection \<open>Evaluation on the clockwise unit square\<close>

lemma squareCW_open: "openContour (squareCW @ [pt 0 0]) = squareCW"
  by (simp add: openContour_def isClosed_def squareCW_def)

lemma squareCW_dedupe: "dedupe squareCW = squareCW"
  by (simp add: dedupe_def dedupeStep_def tol_def squareCW_def)

lemma squareCW_cleanup: "cleanupLoop 3 squareCW = Some squareCW"
proof (rule cleanupLoop_unchanged)
  fix i assume "i < length squareCW"
  then have "i < 4" by (simp add: squareCW_def)
  then show "cleanupVertex squareCW i = (Some (squareCW ! i), False)"
    by (auto dest!: less_4_cases simp: cleanupVertex_def squareCW_def minLen_def Let_def)
qed (simp add: squareCW_def)

lemma squareCW_area: "polygonSignedArea2 squareCW = 2"
  by (simp add: squareCW_def area4)

lemma squareCW_offsetPolygon:
  "offsetPolygon squareCW (1 / 4) =
     Some [pt (- (1 / 4)) (- (1 / 4)), pt (- (1 / 4)) (5 / 4), pt (5 / 4) (5 / 4), pt (5 / 4) (- (1 / 4))]"
proof (rule offsetPolygon4[where s = 1 and ?z0.0 = 0])
  show "windingSign squareCW = 1" by (simp add: windingSign_def squareCW_area)
qed (simp_all add: squareCW_def offsetVertex_def minLen_def Let_def pt_def)

lemma squareCW_offset:
  "contourOffset (squareCW @ [pt 0 0]) (1 / 4) =
     Inr [pt (- (1 / 4)) (- (1 / 4)), pt (- (1 / 4)) (5 / 4), pt (5 / 4) (5 / 4),
          pt (5 / 4) (- (1 / 4)), pt (- (1 / 4)) (- (1 / 4))]"
proof -
  have "contourOffset (squareCW @ [pt 0 0]) (1 / 4) = offsetCleaned squareCW (1 / 4)"
    by (rule contourOffset_eval[OF squareCW_open squareCW_dedupe _ _ squareCW_cleanup])
       (simp_all add: squareCW_def)
  also have "\<dots> = Inr ([pt (- (1 / 4)) (- (1 / 4)), pt (- (1 / 4)) (5 / 4), pt (5 / 4) (5 / 4),
          pt (5 / 4) (- (1 / 4))] @ [([pt (- (1 / 4)) (- (1 / 4)), pt (- (1 / 4)) (5 / 4), pt (5 / 4) (5 / 4),
          pt (5 / 4) (- (1 / 4))] ! 0)\<lparr>pz := pz (squareCW ! 0)\<rparr>])"
    by (rule offsetCleaned_eval[OF squareCW_offsetPolygon]) (simp_all add: area4 squareCW_area)
  also have "\<dots> = Inr [pt (- (1 / 4)) (- (1 / 4)), pt (- (1 / 4)) (5 / 4), pt (5 / 4) (5 / 4),
          pt (5 / 4) (- (1 / 4)), pt (- (1 / 4)) (- (1 / 4))]"
    by (simp add: squareCW_def pt_def)
  finally show ?thesis .
qed

subsection \<open>Evaluation on the thin rectangle\<close>

lemma thinRect_open: "openContour (thinRect @ [pt 0 0]) = thinRect"
  by (simp add: openContour_def isClosed_def thinRect_def)

lemma thinRect_dedupe: "dedupe thinRect = thinRect"
  by (simp add: dedupe_def dedupeStep_def tol_def thinRect_def)

lemma thinRect_cleanup: "cleanupLoop 3 thinRect = Some thinRect"
proof (rule cleanupLoop_unchanged)
  fix i assume "i < length thinRect"
  then have "i < 4" by (simp add: thinRect_def)
  then show "cleanupVertex thinRect i = (Some (thinRect ! i), False)"
    by (auto dest!: less_4_cases simp: cleanupVertex_def thinRect_def minLen_def Let_def)
qed (simp add: thinRect_def)

lemma thinRect_area: "polygonSignedArea2 thinRect = - (60000021 / 5000000)"
  by (simp add: thinRect_def area4)

lemma thinRect_offsetPolygon:
  "offsetPolygon thinRect (- 1) =
     Some [pt 1 1, pt 2 1, pt 2 (10000007 / 10000000), pt 1 (10000007 / 10000000)]"
proof (rule offsetPolygon4[where s = "- 1" and ?z0.0 = 0])
  show "windingSign thinRect = - 1" by (simp add: windingSign_def thinRect_area)
qed (simp_all add: thinRect_def offsetVertex_def minLen_def Let_def pt_def)

lemma thinRect_offset:
  "contourOffset (thinRect @ [pt 0 0]) (- 1) =
     Inr [pt 1 1, pt 2 1, pt 2 (10000007 / 10000000), pt 1 (10000007 / 10000000), pt 1 1]"
proof -
  have "contourOffset (thinRect @ [pt 0 0]) (- 1) = offsetCleaned thinRect (- 1)"
    by (rule contourOffset_eval[OF thinRect_open thinRect_dedupe _ _ thinRect_cleanup])
       (simp_all add: thinRect_def)
  also have "\<dots> = Inr ([pt 1 1, pt 2 1, pt 2 (10000007 / 10000000), pt 1 (10000007 / 10000000)]
        @ [([pt 1 1, pt 2 1, pt 2 (10000007 / 10000000), pt 1 (10000007 / 10000000)] ! 0)
             \<lparr>pz := pz (thinRect ! 0)\<rparr>])"
    by (rule offsetCleaned_eval[OF thinRect_offsetPolygon]) (simp_all add: area4 thinRect_area)
  also have "\<dots> = Inr [pt 1 1, pt 2 1, pt 2 (10000007 / 10000000), pt 1 (10000007 / 10000000), pt 1 1]"
    by (simp add: thinRect_def pt_def)
  finally show ?thesis .
qed

lemma thinRect_offset_area:
  "shoelaceArea2 [pt 1 1, pt 2 1, pt 2 (10000007 / 10000000), pt 1 (10000007 / 10000000)]
     = 7 / 5000000"
  by (simp add: shoelaceArea2_def shoelaceTerm_def upt_0_4)

subsection \<open>Evaluation on the collinear sliver\<close>

text \<open>
  The sliver keeps its four points in the deduplication and loses two of them in the second
  cleanup pass, where \<^verbatim>\<open>contourOffset\<close> returns through \<^verbatim>\<open>if (next.length < 3) return null\<close>.
\<close>

lemma sliver_open: "openContour (sliver @ [pt 0 0]) = sliver"
  by (simp add: openContour_def isClosed_def sliver_def)

lemma sliver_dedupe: "dedupe sliver = sliver"
  by (simp add: dedupe_def dedupeStep_def tol_def sliver_def)

lemma sliver_pass1:
  "cleanupPass sliver =
     ([pt (9 / 20000000) 0, pt (13 / 10000000) 0, pt (- (1 / 2500000)) 0, pt (9 / 20000000) 0], True)"
  by (simp add: cleanupPass_def sliver_def upt_0_4 cleanupVertex_def minLen_def Let_def pt_def)

lemma sliver_pass2:
  "cleanupPass [pt (9 / 20000000) 0, pt (13 / 10000000) 0, pt (- (1 / 2500000)) 0, pt (9 / 20000000) 0] =
     ([pt (7 / 8000000) 0, pt (1 / 40000000) 0], True)"
  by (simp add: cleanupPass_def upt_0_4 cleanupVertex_def minLen_def Let_def pt_def)

lemma sliver_cleanup: "cleanupLoop 3 sliver = None"
  by (simp add: numeral_3_eq_3 sliver_pass1 sliver_pass2)

lemma sliver_offset: "contourOffset (sliver @ [pt 0 0]) 1 = Inl CleanupCollapsed"
proof -
  have "length (sliver @ [pt 0 0]) = 5" "length sliver = 4" by (simp_all add: sliver_def)
  then show ?thesis
    by (simp add: contourOffset_def sliver_open sliver_dedupe sliver_cleanup)
qed


subsection \<open>The signed area against the shoelace formula\<close>

lemma cyclic_sum_shift:
  fixes f :: "nat \<Rightarrow> real"
  shows "(\<Sum>i \<leftarrow> [0 ..< n]. f ((i + 1) mod n)) = (\<Sum>i \<leftarrow> [0 ..< n]. f i)"
proof (cases n)
  case 0
  then show ?thesis by simp
next
  case (Suc m)
  have "(\<Sum>i \<leftarrow> [0 ..< Suc m]. f ((i + 1) mod Suc m)) = (\<Sum>i = 0 ..< Suc m. f ((i + 1) mod Suc m))"
    by (simp add: interv_sum_list_conv_sum_set_nat)
  also have "\<dots> = (\<Sum>i = 0 ..< m. f ((i + 1) mod Suc m)) + f 0"
    by simp
  also have "(\<Sum>i = 0 ..< m. f ((i + 1) mod Suc m)) = (\<Sum>i = 0 ..< m. f (Suc i))"
    by (rule sum.cong) auto
  also have "\<dots> = (\<Sum>i = Suc 0 ..< Suc m. f i)"
    by (rule sum.shift_bounds_Suc_ivl[symmetric])
  also have "(\<Sum>i = Suc 0 ..< Suc m. f i) + f 0 = (\<Sum>i = 0 ..< Suc m. f i)"
    using sum.atLeast_Suc_lessThan[of 0 "Suc m" f] by simp
  also have "\<dots> = (\<Sum>i \<leftarrow> [0 ..< Suc m]. f i)"
    by (simp add: interv_sum_list_conv_sum_set_nat)
  finally show ?thesis using Suc by simp
qed

lemma area_terms_sum:
  "(\<Sum>i \<leftarrow> [0 ..< length pts]. areaTerm pts i) = - shoelaceArea2 pts"
proof -
  let ?n = "length pts"
  let ?f = "\<lambda>i. px (pts ! i) * py (pts ! i)"
  have "(\<Sum>i \<leftarrow> [0 ..< ?n]. areaTerm pts i) + (\<Sum>i \<leftarrow> [0 ..< ?n]. shoelaceTerm pts i)
        = (\<Sum>i \<leftarrow> [0 ..< ?n]. areaTerm pts i + shoelaceTerm pts i)"
    by (simp add: sum_list_addf)
  also have "\<dots> = (\<Sum>i \<leftarrow> [0 ..< ?n]. ?f ((i + 1) mod ?n) - ?f i)"
    by (rule arg_cong[where f = sum_list], rule map_cong)
       (simp_all add: areaTerm_def shoelaceTerm_def Let_def algebra_simps)
  also have "\<dots> = (\<Sum>i \<leftarrow> [0 ..< ?n]. ?f ((i + 1) mod ?n)) - (\<Sum>i \<leftarrow> [0 ..< ?n]. ?f i)"
    by (simp add: sum_list_subtractf)
  also have "\<dots> = 0"
    using cyclic_sum_shift[of ?f ?n] by simp
  finally show ?thesis by (simp add: shoelaceArea2_def)
qed

lemma polygonSignedArea2_neg_shoelace:
  "polygonSignedArea2 pts = - shoelaceArea2 pts"
proof (cases "length pts < 3")
  case False
  then show ?thesis by (simp add: polygonSignedArea2_def area_terms_sum)
next
  case True
  then consider "pts = []" | a where "pts = [a]" | a b where "pts = [a, b]"
    by (cases pts rule: list.exhaust; simp; rename_tac t; case_tac t; simp; rename_tac t2; case_tac t2; simp)
  then have "shoelaceArea2 pts = 0"
    by cases (simp_all add: shoelaceArea2_def shoelaceTerm_def upt_rec)
  then show ?thesis using True by (simp add: polygonSignedArea2_def)
qed

section \<open>Depth levels\<close>

text \<open>
  The number of layers at decimal inputs, which stand for the doubles nearest to them: the
  double quotient \<open>2.1 / 0.7\<close> is \<open>3.0000000000000004\<close>, with four layers, and
  \<open>3 / 0.3\<close> is \<open>10\<close>, with ten.
\<close>

lemma numLayers_decimal:
  "numLayers (21 / 10) (7 / 10) = 4"
  "numLayers 3 (3 / 10) = 10"
proof -
  have "dbl (21 / 10) =
      real_of_int (roundEven ((21 / 10) / 2 powr real_of_int (1 - 52))) * 2 powr real_of_int (1 - 52)"
    by (rule dbl_eval) (simp_all add: powr_minus)
  then have a: "dbl (21 / 10) = 4728779608739021 / 2251799813685248"
    by (simp add: powr_minus roundEven_def Let_def)
  have "dbl (7 / 10) =
      real_of_int (roundEven ((7 / 10) / 2 powr real_of_int (-1 - 52))) * 2 powr real_of_int (-1 - 52)"
    by (rule dbl_eval) (simp_all add: powr_minus)
  then have b: "dbl (7 / 10) = 3152519739159347 / 4503599627370496"
    by (simp add: powr_minus roundEven_def Let_def)
  have d: "(4728779608739021 / 2251799813685248) / (3152519739159347 / 4503599627370496) = (9457559217478042 / 3152519739159347 :: real)"
    by simp
  have "dbl (9457559217478042 / 3152519739159347) =
      real_of_int (roundEven ((9457559217478042 / 3152519739159347) / 2 powr real_of_int (1 - 52))) * 2 powr real_of_int (1 - 52)"
    by (rule dbl_eval) (simp_all add: powr_minus)
  then have q: "dbl (9457559217478042 / 3152519739159347) = 6755399441055745 / 2251799813685248"
    by (simp add: powr_minus roundEven_def Let_def)
  show "numLayers (21 / 10) (7 / 10) = 4"
    unfolding numLayers_def ddiv_def a b d q by (simp add: Math_ceil_def)
  have d': "3 / (5404319552844595 / 18014398509481984) = (54043195528445952 / 5404319552844595 :: real)"
    by simp
  have "dbl (54043195528445952 / 5404319552844595) =
      real_of_int (roundEven ((54043195528445952 / 5404319552844595) / 2 powr real_of_int (3 - 52))) * 2 powr real_of_int (3 - 52)"
    by (rule dbl_eval) (simp_all add: powr_minus)
  then have q': "dbl (54043195528445952 / 5404319552844595) = 10"
    by (simp add: powr_minus roundEven_def Let_def)
  show "numLayers 3 (3 / 10) = 10"
    unfolding numLayers_def ddiv_def dbl_small_ints dbl_three_tenths d' q'
    by (simp add: Math_ceil_def)
qed

text \<open>
  Claim C1 fails on a defect of the code. The comment of \<^verbatim>\<open>computeDepthLevels\<close> gives
  \<^verbatim>\<open>stepdown\<close> as the greatest layer height, with all layers of equal height, and the
  last-layer case \<^verbatim>\<open>i === numLayers ? -totalDepth\<close> is there to end at \<open>-totalDepth\<close>; but
  every level, the last included, is rounded to tenths afterwards. For the doubles
  \<open>totalDepth = 0.25\<close> and \<open>stepdown = 0.015625\<close> the function returns 16 levels of which the
  first two are \<open>0\<close>, so the levels are neither negative nor strictly decreasing, and the
  last is the double nearest to \<open>-0.3\<close>, not \<open>-0.25\<close>.
\<close>

theorem computeDepthLevels_rounded_to_tenths:
  "length (computeDepthLevels (1 / 4) (1 / 64)) = 16
   \<and> computeDepthLevels (1 / 4) (1 / 64) ! 0 = 0
   \<and> computeDepthLevels (1 / 4) (1 / 64) ! 1 = 0
   \<and> last (computeDepthLevels (1 / 4) (1 / 64)) = - (5404319552844595 / 18014398509481984)
   \<and> last (computeDepthLevels (1 / 4) (1 / 64)) \<noteq> - (1 / 4)"
proof -
  let ?levels = "computeDepthLevels (1 / 4) (1 / 64)"
  have n: "numLayers (1 / 4) (1 / 64) = 16"
    by (simp add: numLayers_def Math_ceil_def ddiv_def dbl_small_ints dbl_small_dyadics)
  have h: "ddiv (1 / 4) 16 = 1 / 64"
    by (simp add: ddiv_def dbl_small_ints dbl_small_dyadics)
  have r1: "round1 (1 / 64) = 0"
    by (simp add: round1_def Math_round_def ddiv_def dmul_def dbl_small_ints dbl_small_dyadics
        dbl_0)
  have r2: "round1 (1 / 32) = 0"
    by (simp add: round1_def Math_round_def ddiv_def dmul_def dbl_small_ints dbl_small_dyadics
        dbl_0)
  have r3: "round1 (1 / 4) = 5404319552844595 / 18014398509481984"
    by (simp add: round1_def Math_round_def ddiv_def dmul_def dbl_small_ints dbl_small_dyadics
        dbl_three_tenths)
  have z1: "layerZ (1 / 4) 16 (Suc 0) = 0"
    by (simp add: layerZ_def h dmul_def dbl_small_ints dbl_small_dyadics r1)
  have z2: "layerZ (1 / 4) 16 (Suc (Suc 0)) = 0"
    by (simp add: layerZ_def h dmul_def dbl_small_ints dbl_small_dyadics r2)
  have z16: "layerZ (1 / 4) 16 16 = - (5404319552844595 / 18014398509481984)"
    by (simp add: layerZ_def r3)
  have len: "length ?levels = 16"
    by (simp add: computeDepthLevels_def n)
  have l0: "?levels ! 0 = 0"
    by (simp add: computeDepthLevels_def n nth_map_upt z1 del: upt_Suc)
  have l1: "?levels ! 1 = 0"
    by (simp add: computeDepthLevels_def n nth_map_upt z2 del: upt_Suc)
  have "?levels ! 15 = - (5404319552844595 / 18014398509481984)"
    by (simp add: computeDepthLevels_def n nth_map_upt z16 del: upt_Suc)
  moreover have "last ?levels = ?levels ! (length ?levels - 1)"
    using len by (intro last_conv_nth) auto
  ultimately have l15: "last ?levels = - (5404319552844595 / 18014398509481984)"
    using len by simp
  show ?thesis
    unfolding l15 using len l0 l1 by simp
qed

section \<open>The origin transform is one translation\<close>

lemma shiftMove_sel:
  "mx (shiftMove sx sy origin td m) = mx m + sx"
  "my (shiftMove sx sy origin td m) = my m + sy"
  "mz (shiftMove sx sy origin td m) = mz m + ((if zOrigin origin = STOCK_BOTTOM then td else 0) + zOffset origin)"
  "kind (shiftMove sx sy origin td m) = kind m"
  by (simp_all add: shiftMove_def Let_def)

text \<open>
  Claim C10: \<^verbatim>\<open>applyOriginTransform\<close> adds one pair \<open>(shiftX, shiftY)\<close>, the one chosen from the
  bounding box, the origin, the operation and the tool radius, and one Z shift
  (\<open>totalDepth\<close> when the Z origin is the stock bottom, plus \<open>zOffset\<close>) to every move.
  The number of moves and every move's type stay as they are, and so does every
  coordinate difference between two moves.
\<close>

theorem applyOriginTransform_uniform:
  "\<exists>shiftX shiftY.
     (\<forall>b. boundingBox moves = Some b \<longrightarrow>
         (shiftX, shiftY) = xyShift b (xyOrigin origin) r operation contourType facingBounds)
     \<and> length (applyOriginTransform moves origin depth r operation contourType facingBounds)
         = length moves
     \<and> (\<forall>i < length moves.
          mx (applyOriginTransform moves origin depth r operation contourType facingBounds ! i)
            = mx (moves ! i) + shiftX
        \<and> my (applyOriginTransform moves origin depth r operation contourType facingBounds ! i)
            = my (moves ! i) + shiftY
        \<and> mz (applyOriginTransform moves origin depth r operation contourType facingBounds ! i)
            = mz (moves ! i) + ((if zOrigin origin = STOCK_BOTTOM then depth else 0) + zOffset origin)
        \<and> kind (applyOriginTransform moves origin depth r operation contourType facingBounds ! i)
            = kind (moves ! i))
     \<and> (\<forall>i < length moves. \<forall>j < length moves.
          mx (applyOriginTransform moves origin depth r operation contourType facingBounds ! i)
            - mx (applyOriginTransform moves origin depth r operation contourType facingBounds ! j)
            = mx (moves ! i) - mx (moves ! j)
        \<and> my (applyOriginTransform moves origin depth r operation contourType facingBounds ! i)
            - my (applyOriginTransform moves origin depth r operation contourType facingBounds ! j)
            = my (moves ! i) - my (moves ! j)
        \<and> mz (applyOriginTransform moves origin depth r operation contourType facingBounds ! i)
            - mz (applyOriginTransform moves origin depth r operation contourType facingBounds ! j)
            = mz (moves ! i) - mz (moves ! j))"
proof -
  let ?out = "applyOriginTransform moves origin depth r operation contourType facingBounds"
  obtain sx sy where s: "?out = map (shiftMove sx sy origin depth) moves"
    and b: "\<forall>b. boundingBox moves = Some b \<longrightarrow>
         (sx, sy) = xyShift b (xyOrigin origin) r operation contourType facingBounds"
  proof (cases "boundingBox moves")
    case None
    then have "moves = []" by (simp add: boundingBox_def split: list.splits)
    then have "?out = map (shiftMove 0 0 origin depth) moves"
      by (simp add: applyOriginTransform_def boundingBox_def)
    then show ?thesis using that[of 0 0] None by simp
  next
    case (Some bb)
    obtain sx sy where x: "xyShift bb (xyOrigin origin) r operation contourType facingBounds = (sx, sy)"
      by (cases "xyShift bb (xyOrigin origin) r operation contourType facingBounds")
    then have "?out = map (shiftMove sx sy origin depth) moves"
      using Some by (simp add: applyOriginTransform_def)
    then show ?thesis using that[of sx sy] Some x by simp
  qed
  have len: "length ?out = length moves" using s by simp
  have pt: "\<forall>i < length moves.
      mx (?out ! i) = mx (moves ! i) + sx \<and> my (?out ! i) = my (moves ! i) + sy
      \<and> mz (?out ! i) = mz (moves ! i) + ((if zOrigin origin = STOCK_BOTTOM then depth else 0) + zOffset origin)
      \<and> kind (?out ! i) = kind (moves ! i)"
    unfolding s by (simp add: shiftMove_sel)
  have df: "\<forall>i < length moves. \<forall>j < length moves.
      mx (?out ! i) - mx (?out ! j) = mx (moves ! i) - mx (moves ! j)
      \<and> my (?out ! i) - my (?out ! j) = my (moves ! i) - my (moves ! j)
      \<and> mz (?out ! i) - mz (?out ! j) = mz (moves ! i) - mz (moves ! j)"
    using pt by simp
  show ?thesis
    apply (rule exI[of _ sx], rule exI[of _ sy])
    using b len pt df by blast
qed

lemma twoMoves_box: "boundingBox twoMoves = Some \<lparr>minX = 1, minY = 2, maxX = 4, maxY = 6\<rparr>"
  by (simp add: boundingBox_def twoMoves_def growBox_def rapidMove_def cutMove_def)

lemma twoMoves_transform: "applyOriginTransform twoMoves \<lparr>xyOrigin = BOTTOM_LEFT, zOrigin = STOCK_BOTTOM, zOffset = 1\<rparr> 5 3 POCKET Inside None
   = [rapidMove 3 3 16, cutMove 6 7 1]"
  unfolding applyOriginTransform_def twoMoves_box
  by (simp add: xyShift_def shiftMove_def twoMoves_def rapidMove_def cutMove_def)

text \<open>Claim C10 on a rapid and a cut move, origin bottom left, stock bottom, \<open>zOffset = 1\<close>.\<close>

theorem applyOriginTransform_uniform_witness:
  "(0::nat) < length twoMoves \<and> (1::nat) < length twoMoves
   \<and> mx (applyOriginTransform twoMoves
            \<lparr>xyOrigin = BOTTOM_LEFT, zOrigin = STOCK_BOTTOM, zOffset = 1\<rparr> 5 3 POCKET Inside None ! 1)
       - mx (applyOriginTransform twoMoves
            \<lparr>xyOrigin = BOTTOM_LEFT, zOrigin = STOCK_BOTTOM, zOffset = 1\<rparr> 5 3 POCKET Inside None ! 0)
       = mx (twoMoves ! 1) - mx (twoMoves ! 0)
   \<and> kind (applyOriginTransform twoMoves
            \<lparr>xyOrigin = BOTTOM_LEFT, zOrigin = STOCK_BOTTOM, zOffset = 1\<rparr> 5 3 POCKET Inside None ! 1)
       = kind (twoMoves ! 1)
   \<and> applyOriginTransform twoMoves
        \<lparr>xyOrigin = BOTTOM_LEFT, zOrigin = STOCK_BOTTOM, zOffset = 1\<rparr> 5 3 POCKET Inside None
       = [rapidMove 3 3 16, cutMove 6 7 1]"
proof -
  have l: "(0::nat) < length twoMoves" "(1::nat) < length twoMoves"
    by (simp_all add: twoMoves_def)
  let ?out = "applyOriginTransform twoMoves
        \<lparr>xyOrigin = BOTTOM_LEFT, zOrigin = STOCK_BOTTOM, zOffset = 1\<rparr> 5 3 POCKET Inside None"
  from applyOriginTransform_uniform[of twoMoves
        "\<lparr>xyOrigin = BOTTOM_LEFT, zOrigin = STOCK_BOTTOM, zOffset = 1\<rparr>" 3 POCKET Inside None 5]
  obtain sx sy where
    k: "\<forall>i < length twoMoves. mx (?out ! i) = mx (twoMoves ! i) + sx \<and> my (?out ! i) = my (twoMoves ! i) + sy
        \<and> mz (?out ! i) = mz (twoMoves ! i)
            + ((if zOrigin \<lparr>xyOrigin = BOTTOM_LEFT, zOrigin = STOCK_BOTTOM, zOffset = 1\<rparr> = STOCK_BOTTOM
                then 5 else 0) + zOffset \<lparr>xyOrigin = BOTTOM_LEFT, zOrigin = STOCK_BOTTOM, zOffset = 1\<rparr>)
        \<and> kind (?out ! i) = kind (twoMoves ! i)"
    and d: "\<forall>i < length twoMoves. \<forall>j < length twoMoves.
        mx (?out ! i) - mx (?out ! j) = mx (twoMoves ! i) - mx (twoMoves ! j)
        \<and> my (?out ! i) - my (?out ! j) = my (twoMoves ! i) - my (twoMoves ! j)
        \<and> mz (?out ! i) - mz (?out ! j) = mz (twoMoves ! i) - mz (twoMoves ! j)"
    by blast
  have "mx (?out ! 1) - mx (?out ! 0) = mx (twoMoves ! 1) - mx (twoMoves ! 0)"
    using d l by blast
  moreover have "kind (?out ! 1) = kind (twoMoves ! 1)"
    using k l by blast
  ultimately show ?thesis using l twoMoves_transform by simp
qed


section \<open>Failure cases of the contour offset\<close>

text \<open>
  Claim C2, as stated, fails on the area test. The thin rectangle offset by \<open>-1\<close> gives
  a polygon of area \<open>7e-7 < 1e-6\<close>, and \<^verbatim>\<open>contourOffset\<close> returns it: the test
  \<^verbatim>\<open>Math.abs(outArea2) < 1e-6\<close> is on \<^verbatim>\<open>polygonSignedArea2\<close>, twice the area.
\<close>

theorem contourOffset_failure_counterexample:
  "contourOffset (thinRect @ [pt 0 0]) (- 1) =
     Inr [pt 1 1, pt 2 1, pt 2 (10000007 / 10000000), pt 1 (10000007 / 10000000), pt 1 1]
   \<and> \<bar>shoelaceArea2 [pt 1 1, pt 2 1, pt 2 (10000007 / 10000000), pt 1 (10000007 / 10000000)] / 2\<bar>
        < 1 / 1000000"
proof -
  have "\<bar>shoelaceArea2 [pt 1 1, pt 2 1, pt 2 (10000007 / 10000000),
      pt 1 (10000007 / 10000000)] / 2\<bar> < 1 / 1000000"
    unfolding thinRect_offset_area by simp
  then show ?thesis
    using thinRect_offset by simp
qed

text \<open>
  Claim C2, amended: for a nonzero distance, \<^verbatim>\<open>contourOffset\<close> returns no result exactly when
  fewer than three points remain after deduplication, or a cleanup pass leaves fewer than
  three points, or a vertex of the cleaned contour has an edge shorter than \<open>1e-6\<close>, or
  the offset polygon has \<open>\<bar>polygonSignedArea2\<bar> < 1e-6\<close> (twice its area), or the product
  of the signed areas of offset polygon and cleaned contour is negative. A reason is
  stored on every failure outside the cleanup loop: with fewer than three points after
  deduplication, on a short edge, on the area test and on the winding test. Every result
  has at least four points and ends with its first point.
\<close>

theorem contourOffset_failure_cases:
  assumes "distance \<noteq> 0"
  shows "((\<exists>f. contourOffset contour distance = Inl f) \<longleftrightarrow>
            (length (dedupe (openContour contour)) < 3
             \<or> cleanupLoop 3 (dedupe (openContour contour)) = None
             \<or> (\<exists>pts. cleanupLoop 3 (dedupe (openContour contour)) = Some pts \<and>
                  ((\<exists>i < length pts. zeroEdgeAt pts i)
                   \<or> (\<exists>res. offsetPolygon pts distance = Some res \<and>
                         (\<bar>polygonSignedArea2 res\<bar> < 1 / 1000000
                          \<or> polygonSignedArea2 res * polygonSignedArea2 pts < 0))))))
       \<and> (\<forall>f. contourOffset contour distance = Inl f \<longrightarrow>
             length (dedupe (openContour contour)) < 3
             \<or> cleanupLoop 3 (dedupe (openContour contour)) \<noteq> None \<longrightarrow>
             failReason f \<noteq> None)
       \<and> (\<forall>r. contourOffset contour distance = Inr r \<longrightarrow> 4 \<le> length r \<and> last r = hd r)"
proof -
  let ?D = "dedupe (openContour contour)"
  have le: "length ?D \<le> length contour"
    using length_dedupe_le[of "openContour contour"] length_openContour_le[of contour] by simp
  show ?thesis
  proof (cases "length ?D < 3")
    case True
    then have "contourOffset contour distance = Inl ContourTooShort
               \<or> contourOffset contour distance = Inl TooFewAfterDedupe"
      using assms by (simp add: contourOffset_def Let_def)
    then show ?thesis using True by auto
  next
    case False
    then have c3: "\<not> length contour < 3" using le by simp
    show ?thesis
    proof (cases "cleanupLoop 3 ?D")
      case None
      then have "contourOffset contour distance = Inl CleanupCollapsed"
        using assms False c3 by (simp add: contourOffset_def Let_def)
      then show ?thesis using None False by simp
    next
      case (Some pts)
      then have l3: "3 \<le> length pts" using False by (intro cleanupLoop_length[OF Some]) simp
      have eq: "contourOffset contour distance = offsetCleaned pts distance"
        using assms False c3 Some by (simp add: contourOffset_def Let_def)
      show ?thesis
        unfolding eq using offsetCleaned_cases[OF l3, of distance] Some False
        by auto
    qed
  qed
qed

text \<open>Claim C2, the amended statement at the counter-clockwise unit square and distance \<open>1/4\<close>.\<close>

theorem contourOffset_failure_cases_witness:
  "(1 / 4 :: real) \<noteq> 0
   \<and> \<not> length (dedupe (openContour (squareCCW @ [pt 0 0]))) < 3
   \<and> cleanupLoop 3 (dedupe (openContour (squareCCW @ [pt 0 0]))) \<noteq> None
   \<and> 4 \<le> length [pt (- (1 / 4)) (- (1 / 4)), pt (5 / 4) (- (1 / 4)), pt (5 / 4) (5 / 4),
          pt (- (1 / 4)) (5 / 4), pt (- (1 / 4)) (- (1 / 4))]"
proof -
  have h: "(1 / 4 :: real) \<noteq> 0" by simp
  show ?thesis
    using contourOffset_failure_cases[OF h, of "squareCCW @ [pt 0 0]"] squareCCW_offset h
    by auto
qed

section \<open>Direction of the offset\<close>

text \<open>
  Claim C3 against the code: the unit square offset by the positive distance \<open>1/4\<close> comes
  back as the square \<open>[-1/4, 5/4] \<times> [-1/4, 5/4]\<close>, in counter-clockwise and in clockwise
  vertex order alike. Every edge has moved away from the interior by \<open>1/4\<close>; the claim and
  the documentation of \<^verbatim>\<open>contourOffset\<close> (positive = inward) ask for
  \<open>[1/4, 3/4] \<times> [1/4, 3/4]\<close>.
\<close>

theorem contourOffset_positive_distance_square:
  "contourOffset (squareCCW @ [pt 0 0]) (1 / 4) =
     Inr [pt (- (1 / 4)) (- (1 / 4)), pt (5 / 4) (- (1 / 4)), pt (5 / 4) (5 / 4),
          pt (- (1 / 4)) (5 / 4), pt (- (1 / 4)) (- (1 / 4))]
   \<and> contourOffset (squareCW @ [pt 0 0]) (1 / 4) =
     Inr [pt (- (1 / 4)) (- (1 / 4)), pt (- (1 / 4)) (5 / 4), pt (5 / 4) (5 / 4),
          pt (5 / 4) (- (1 / 4)), pt (- (1 / 4)) (- (1 / 4))]"
  using squareCCW_offset squareCW_offset by (rule conjI)

section \<open>Sign of the signed area\<close>

text \<open>
  Claim C4 against the code: on the unit square in counter-clockwise order
  \<open>(0,0), (1,0), (1,1), (0,1)\<close>, whose signed area is \<open>1\<close>, \<^verbatim>\<open>polygonSignedArea2\<close> returns
  \<open>-2\<close>, while the shoelace formula gives \<open>2\<close>. By \<open>polygonSignedArea2_neg_shoelace\<close> the
  function returns the negated value on every point list.
\<close>

theorem polygonSignedArea2_ccw_square:
  "polygonSignedArea2 squareCCW = - 2 \<and> shoelaceArea2 squareCCW = 2"
  using polygonSignedArea2_neg_shoelace[of squareCCW] by (simp add: squareCCW_area)

section \<open>Arc fitting on a run of mixed depth\<close>

declare findBestJ.simps [simp del] fitLoop.simps [simp del] replaceCutRunsWithArcs.simps [simp del]

lemma findBestJ_end: "\<not> j \<le> length points \<Longrightarrow> findBestJ points i j bestJ = bestJ"
  by (subst findBestJ.simps) simp

lemma findBestJ_no_circle:
  "j \<le> length points \<Longrightarrow>
   circleFromThreePoints (points ! i) (points ! ((i + j) div 2)) (points ! (j - 1)) = None \<Longrightarrow>
   findBestJ points i j bestJ = bestJ"
  by (subst findBestJ.simps) simp

lemma findBestJ_step:
  "j \<le> length points \<Longrightarrow>
   circleFromThreePoints (points ! i) (points ! ((i + j) div 2)) (points ! (j - 1)) = Some c \<Longrightarrow>
   runFitsCircle points i j c \<Longrightarrow>
   findBestJ points i j bestJ = findBestJ points i (j + 1) j"
  by (subst findBestJ.simps) simp

lemma fitLoop_end: "\<not> i < length points \<Longrightarrow> fitLoop points z i = []"
  by (subst fitLoop.simps) simp

lemma fitLoop_line:
  "i < length points \<Longrightarrow> \<not> i + 2 \<ge> length points \<Longrightarrow>
   \<not> findBestJ points i (i + 3) (i + 2) > i + 2 \<Longrightarrow>
   fitLoop points z i = FLine (points ! i) # fitLoop points z (i + 1)"
  by (subst fitLoop.simps) (simp add: Let_def)

lemma fitLoop_arc:
  "i < length points \<Longrightarrow> \<not> i + 2 \<ge> length points \<Longrightarrow>
   findBestJ points i (i + 3) (i + 2) = bestJ \<Longrightarrow> bestJ > i + 2 \<Longrightarrow>
   circleFromThreePoints (points ! i) (points ! ((i + bestJ) div 2)) (points ! (bestJ - 1)) = Some c \<Longrightarrow>
   fitLoop points z i =
     FArc (px (points ! (bestJ - 1))) (py (points ! (bestJ - 1))) z
          (ccx c - px (points ! i)) (ccy c - py (points ! i))
          ((px (points ! i) - ccx c) * (py (points ! (bestJ - 1)) - ccy c)
             - (py (points ! i) - ccy c) * (px (points ! (bestJ - 1)) - ccx c) < 0)
       # fitLoop points z bestJ"
  by (subst fitLoop.simps) (simp add: Let_def)

lemma hypot_3_4: "hypot (3 / 5) (4 / 5) = 1"
proof -
  have "(3 / 5 :: real) * (3 / 5) + (4 / 5) * (4 / 5) = 1" by simp
  then show ?thesis unfolding hypot_def by simp
qed

lemma quarterArc_bestJ_0: "findBestJ quarterArcPoints 0 (0 + 3) (0 + 2) = 0 + 2"
  by (rule findBestJ_no_circle) (simp_all add: quarterArcPoints_def circleFromThreePoints_def)

lemma quarterArc_circle: "circleFromThreePoints (quarterArcPoints ! 1) (quarterArcPoints ! ((1 + 4) div 2)) (quarterArcPoints ! (4 - 1)) = Some \<lparr>ccx = 0, ccy = 0, cr = 1\<rparr>"
  by (simp add: circleFromThreePoints_def quarterArcPoints_def Let_def)

lemma quarterArc_bestJ_1: "findBestJ quarterArcPoints 1 (1 + 3) (1 + 2) = 4"
proof -
  have "findBestJ quarterArcPoints 1 4 3 = findBestJ quarterArcPoints 1 (4 + 1) 4"
  proof (rule findBestJ_step[OF _ quarterArc_circle])
    show "runFitsCircle quarterArcPoints 1 4 \<lparr>ccx = 0, ccy = 0, cr = 1\<rparr>"
      by (simp add: runFitsCircle_def pointToCircleDeviation_def ARC_FIT_TOLERANCE_MM_def
          quarterArcPoints_def hypot_3_4 upt_rec)
  qed (simp add: quarterArcPoints_def)
  also have "\<dots> = 4" by (rule findBestJ_end) (simp add: quarterArcPoints_def)
  finally have r: "findBestJ quarterArcPoints 1 4 3 = 4" .
  have e: "(1::nat) + 3 = 4" "(1::nat) + 2 = 3" by simp_all
  show ?thesis unfolding e by (rule r)
qed

lemma quarterArc_fit_4: "fitLoop quarterArcPoints z 4 = []"
  by (rule fitLoop_end) (simp add: quarterArcPoints_def)

lemma quarterArc_fit_1: "fitLoop quarterArcPoints z 1 = [FArc 0 1 z (- 1) 0 False]"
proof -
  have "fitLoop quarterArcPoints z 1 =
     FArc (px (quarterArcPoints ! (4 - 1))) (py (quarterArcPoints ! (4 - 1))) z
          (ccx \<lparr>ccx = 0, ccy = 0, cr = 1\<rparr> - px (quarterArcPoints ! 1)) (ccy \<lparr>ccx = 0, ccy = 0, cr = 1\<rparr> - py (quarterArcPoints ! 1))
          ((px (quarterArcPoints ! 1) - ccx \<lparr>ccx = 0, ccy = 0, cr = 1\<rparr>) * (py (quarterArcPoints ! (4 - 1)) - ccy \<lparr>ccx = 0, ccy = 0, cr = 1\<rparr>)
             - (py (quarterArcPoints ! 1) - ccy \<lparr>ccx = 0, ccy = 0, cr = 1\<rparr>) * (px (quarterArcPoints ! (4 - 1)) - ccx \<lparr>ccx = 0, ccy = 0, cr = 1\<rparr>) < 0)
       # fitLoop quarterArcPoints z 4"
    by (rule fitLoop_arc[OF _ _ quarterArc_bestJ_1 _ quarterArc_circle]) (simp_all add: quarterArcPoints_def)
  then show ?thesis by (simp add: quarterArc_fit_4) (simp add: quarterArcPoints_def)
qed

lemma quarterArc_fit_0: "fitLoop quarterArcPoints z 0 = [FLine (quarterArcPoints ! 0), FArc 0 1 z (- 1) 0 False]"
proof -
  have "fitLoop quarterArcPoints z 0 = FLine (quarterArcPoints ! 0) # fitLoop quarterArcPoints z (0 + 1)"
  proof (rule fitLoop_line)
    show "\<not> 0 + 2 < findBestJ quarterArcPoints 0 (0 + 3) (0 + 2)" unfolding quarterArc_bestJ_0 by simp
  qed (simp_all add: quarterArcPoints_def)
  then show ?thesis using quarterArc_fit_1[of z] by simp
qed

lemma quarterArc_fitted: "fitArcsToPoints quarterArcPoints = [FLine (quarterArcPoints ! 0), FArc 0 1 0 (- 1) 0 False]"
proof -
  have l: "length quarterArcPoints = 4" "pz (quarterArcPoints ! 0) = 0" by (simp_all add: quarterArcPoints_def)
  show ?thesis by (simp add: fitArcsToPoints_def l quarterArc_fit_0)
qed

lemma plungeAndQuarterArc_points: "map movePoint plungeAndQuarterArc = quarterArcPoints"
  by (simp add: plungeAndQuarterArc_def quarterArcPoints_def movePoint_def cutMove_def)

lemma fitArcsToPoints_short:
  "length points < 3 \<Longrightarrow> fitArcsToPoints points = map FLine points"
  by (simp add: fitArcsToPoints_def)

text \<open>
  Claim C5 against the code: the cut run "down to \<open>z = 0\<close>, plunge to \<open>z = -1\<close>, quarter of
  the unit circle at \<open>z = -1\<close>" comes back as the cut to \<open>(1, 0, 0)\<close> and one arc to
  \<open>(0, 1)\<close> at \<open>z = 0\<close>. \<^verbatim>\<open>replaceCutRunsWithArcs\<close> collects consecutive cut moves without
  comparing their \<open>z\<close>, and \<^verbatim>\<open>fitArcsToPoints\<close> gives every arc the \<open>z\<close> of the first point
  of the run; the plunge point, being the first point of the fitted arc, is not emitted.
  The end point of the output is 1 mm above the end point \<open>(0, 1, -1)\<close> of the input.
\<close>

theorem replaceCutRunsWithArcs_mixed_z:
  "replaceCutRunsWithArcs plungeAndQuarterArc =
    [cutMove 1 0 0, \<lparr>mx = 0, my = 1, mz = 0, kind = Arc (- 1) 0 False\<rparr>]"
proof -
  have tw: "takeWhile isCut plungeAndQuarterArc = plungeAndQuarterArc"
    "dropWhile isCut plungeAndQuarterArc = []"
    by (simp_all add: plungeAndQuarterArc_def isCut_def cutMove_def)
  have ne: "plungeAndQuarterArc = cutMove 1 0 0 # tl plungeAndQuarterArc"
    by (simp add: plungeAndQuarterArc_def)
  have "replaceCutRunsWithArcs (cutMove 1 0 0 # tl plungeAndQuarterArc) =
      map fittedMove (fitArcsToPoints (map movePoint (takeWhile isCut (cutMove 1 0 0 # tl plungeAndQuarterArc))))
        @ replaceCutRunsWithArcs (dropWhile isCut (cutMove 1 0 0 # tl plungeAndQuarterArc))"
    by (subst replaceCutRunsWithArcs.simps) (simp add: isCut_def cutMove_def Let_def)
  then have "replaceCutRunsWithArcs plungeAndQuarterArc =
      map fittedMove (fitArcsToPoints (map movePoint (takeWhile isCut plungeAndQuarterArc)))
        @ replaceCutRunsWithArcs (dropWhile isCut plungeAndQuarterArc)"
    using ne by simp
  also have "\<dots> = map fittedMove (fitArcsToPoints quarterArcPoints)"
    unfolding tw plungeAndQuarterArc_points by (simp add: replaceCutRunsWithArcs.simps(1))
  also have "\<dots> = [cutMove 1 0 0, \<lparr>mx = 0, my = 1, mz = 0, kind = Arc (- 1) 0 False\<rparr>]"
    unfolding quarterArc_fitted by (simp add: quarterArcPoints_def cutMove_def)
  finally show ?thesis .
qed


section \<open>Shape of the circular spiral pocket\<close>














text \<open>
  The number of spiral turns at decimal inputs: for the diameter \<open>13.8\<close>, the tool radius 3
  and the stepover \<open>0.3\<close> the double radial span is \<open>0.9000000000000004\<close> and the double
  quotient \<open>3.0000000000000013\<close>, with 4 turns; for the diameter 18 the quotient is
  \<open>10\<close>, with 10 turns.
\<close>

lemma spiralTurns_decimal:
  "spiralTurns (radialSpanD (69 / 5) 3) (3 / 10) = 4"
  "spiralTurns (radialSpanD 18 3) (3 / 10) = 10"
proof -
  have "dbl (69 / 5) =
      real_of_int (roundEven ((69 / 5) / 2 powr real_of_int (3 - 52))) * 2 powr real_of_int (3 - 52)"
    by (rule dbl_eval) (simp_all add: powr_minus)
  then have a: "dbl (69 / 5) = 3884354678607053 / 281474976710656"
    by (simp add: powr_minus roundEven_def Let_def)
  have d1: "(3884354678607053 / 281474976710656) / 2 = (3884354678607053 / 562949953421312 :: real)"
    by simp
  have h: "dbl (3884354678607053 / 562949953421312) = 3884354678607053 / 562949953421312"
    using dbl_dyadic[of 3884354678607053 49] by simp
  have d2: "(3884354678607053 / 562949953421312) - 3 = (2195504818343117 / 562949953421312 :: real)"
    by simp
  have o: "dbl (2195504818343117 / 562949953421312) = 2195504818343117 / 562949953421312"
    using dbl_dyadic[of 2195504818343117 49] by simp
  have d3: "(2195504818343117 / 562949953421312) - 3 = (506654958079181 / 562949953421312 :: real)"
    by simp
  have s: "dbl (506654958079181 / 562949953421312) = 506654958079181 / 562949953421312"
    using dbl_dyadic[of 506654958079181 49] by simp
  have sp: "radialSpanD (69 / 5) 3 = 506654958079181 / 562949953421312"
    unfolding radialSpanD_def dsub_def ddiv_def a dbl_small_ints d1 h d2 o d3 s ..
  have d4: "(506654958079181 / 562949953421312) / (5404319552844595 / 18014398509481984) = (16212958658533792 / 5404319552844595 :: real)"
    by simp
  have "dbl (16212958658533792 / 5404319552844595) =
      real_of_int (roundEven ((16212958658533792 / 5404319552844595) / 2 powr real_of_int (1 - 52))) * 2 powr real_of_int (1 - 52)"
    by (rule dbl_eval) (simp_all add: powr_minus)
  then have q: "dbl (16212958658533792 / 5404319552844595) = 6755399441055747 / 2251799813685248"
    by (simp add: powr_minus roundEven_def Let_def)
  have s': "dbl (506654958079181 / 562949953421312) = 506654958079181 / 562949953421312"
    using dbl_dyadic[of 506654958079181 49] by simp
  show "spiralTurns (radialSpanD (69 / 5) 3) (3 / 10) = 4"
    unfolding spiralTurns_def sp ddiv_def s' dbl_three_tenths d4 q by (simp add: Math_ceil_def)
  have i: "dbl 18 = 18" "dbl 9 = 9" "dbl 6 = 6"
    using dbl_int[of 18] dbl_int[of 9] dbl_int[of 6] by simp_all
  have sp': "radialSpanD 18 3 = 3"
    by (simp add: radialSpanD_def dsub_def ddiv_def i dbl_small_ints)
  have d': "3 / (5404319552844595 / 18014398509481984) = (54043195528445952 / 5404319552844595 :: real)"
    by simp
  have "dbl (54043195528445952 / 5404319552844595) =
      real_of_int (roundEven ((54043195528445952 / 5404319552844595) / 2 powr real_of_int (3 - 52))) * 2 powr real_of_int (3 - 52)"
    by (rule dbl_eval) (simp_all add: powr_minus)
  then have q': "dbl (54043195528445952 / 5404319552844595) = 10"
    by (simp add: powr_minus roundEven_def Let_def)
  show "spiralTurns (radialSpanD 18 3) (3 / 10) = 10"
    unfolding spiralTurns_def sp' ddiv_def dbl_small_ints dbl_three_tenths d' q'
    by (simp add: Math_ceil_def)
qed





section \<open>A pocket of the size of the tool is drilled\<close>

lemma pocketPaths_drill:
  assumes "equalToToolDiameter shape cp"
    and "(\<exists>d. shape = Circle d) \<or> (\<exists>a b. shape = Ellipse a b) \<or> (\<exists>s. shape = Square s)"
  shows "pocketPaths spiralPaths shape cp = [[pt 0 0]]"
  using assms by (auto simp: pocketPaths_def)

lemma addLayerForPath_single:
  "addLayerForPath longPath moves [pt 0 0] depthZ cp first safeZ =
     moves
     @ (if moves \<noteq> [] \<and> mz (last moves) < safeZ - 1 / 1000000
        then [rapidMove (mx (last moves)) (my (last moves)) safeZ] else [])
     @ [rapidMove 0 0 safeZ]
     @ (if safeZ > max 0 (leadInAboveMm cp) then [rapidMove 0 0 (max 0 (leadInAboveMm cp))] else [])
     @ [cutMove 0 0 0, cutMove 0 0 depthZ]"
  by (simp add: addLayerForPath_def retractToSafe_def Let_def)

lemma addLayerForPath_axis:
  assumes "\<forall>m \<in> set moves. mx m = 0 \<and> my m = 0"
  shows "\<forall>m \<in> set (addLayerForPath longPath moves [pt 0 0] depthZ cp first safeZ). mx m = 0 \<and> my m = 0"
proof -
  define retract where "retract =
    (if moves \<noteq> [] \<and> mz (last moves) < safeZ - 1 / 1000000
     then [rapidMove (mx (last moves)) (my (last moves)) safeZ] else [])"
  define leadIn where "leadIn =
    (if safeZ > max 0 (leadInAboveMm cp) then [rapidMove 0 0 (max 0 (leadInAboveMm cp))] else [])"
  have lst: "moves \<noteq> [] \<Longrightarrow> mx (last moves) = 0 \<and> my (last moves) = 0"
    using assms last_in_set by blast
  have r: "\<forall>m \<in> set retract. mx m = 0 \<and> my m = 0"
    using lst by (simp add: retract_def)
  have l: "\<forall>m \<in> set leadIn. mx m = 0 \<and> my m = 0"
    by (simp add: leadIn_def)
  have "addLayerForPath longPath moves [pt 0 0] depthZ cp first safeZ =
      moves @ retract @ [rapidMove 0 0 safeZ] @ leadIn @ [cutMove 0 0 0, cutMove 0 0 depthZ]"
    unfolding addLayerForPath_single retract_def leadIn_def ..
  then show ?thesis using assms r l by (simp add: ball_Un)
qed

lemma layer_fold_single:
  "fold (\<lambda>(idx, path) moves'. addLayerForPath longPath moves' path depthZ cp (idx = 0) safeZ)
        (enumerate 0 [[pt 0 0]]) moves
     = addLayerForPath longPath moves [pt 0 0] depthZ cp True safeZ"
  by simp

lemma pocketLayers_axis_fold:
  assumes "\<forall>m \<in> set moves. mx m = 0 \<and> my m = 0"
  shows "\<forall>m \<in> set (fold (\<lambda>depthZ moves. addLayerForPath longPath moves [pt 0 0] depthZ cp first safeZ)
                       depths moves). mx m = 0 \<and> my m = 0"
  using assms
proof (induction depths arbitrary: moves)
  case Nil
  then show ?case by (simp only: fold_simps id_apply)
next
  case (Cons d ds)
  have "\<forall>m \<in> set (addLayerForPath longPath moves [pt 0 0] d cp first safeZ). mx m = 0 \<and> my m = 0"
    using Cons.prems by (rule addLayerForPath_axis)
  then have "\<forall>m \<in> set (fold (\<lambda>depthZ moves. addLayerForPath longPath moves [pt 0 0] depthZ cp first safeZ)
                       ds (addLayerForPath longPath moves [pt 0 0] d cp first safeZ)). mx m = 0 \<and> my m = 0"
    by (rule Cons.IH)
  then show ?case by (simp only: fold_simps comp_apply)
qed

lemma pocketLayers_single:
  "pocketLayers longPath [[pt 0 0]] depths cp =
     fold (\<lambda>depthZ moves. addLayerForPath longPath moves [pt 0 0] depthZ cp True (safeHeight cp)) depths []"
  unfolding pocketLayers_def layer_fold_single ..

lemma pocketLayers_axis:
  "\<forall>m \<in> set (pocketLayers longPath [[pt 0 0]] depths cp). mx m = 0 \<and> my m = 0"
proof -
  have "\<forall>m \<in> set ([] :: move list). mx m = 0 \<and> my m = 0" by simp
  then show ?thesis unfolding pocketLayers_single by (rule pocketLayers_axis_fold)
qed

lemma finalRetract_axis:
  assumes "\<forall>m \<in> set moves. mx m = 0 \<and> my m = 0"
  shows "finalRetract moves safeZ =
           moves @ (if moves \<noteq> [] \<and> mz (last moves) < safeZ - 1 / 1000000
                    then [rapidMove 0 0 safeZ] else [])"
proof (cases "moves \<noteq> [] \<and> mz (last moves) < safeZ - 1 / 1000000")
  case True
  then have "mx (last moves) = 0 \<and> my (last moves) = 0"
    using assms last_in_set by blast
  then show ?thesis using True by (simp add: finalRetract_def Let_def)
next
  case False
  then show ?thesis by (auto simp: finalRetract_def)
qed

lemma applyOriginTransform_same_xy:
  assumes "\<forall>m \<in> set moves. mx m = 0 \<and> my m = 0"
  shows "\<exists>sx sy. \<forall>m \<in> set (applyOriginTransform moves origin depth r operation contourType fb).
           mx m = sx \<and> my m = sy"
proof (cases "boundingBox moves")
  case None
  then show ?thesis by (simp add: applyOriginTransform_def)
next
  case (Some b)
  obtain sx sy where "xyShift b (xyOrigin origin) r operation contourType fb = (sx, sy)"
    by (cases "xyShift b (xyOrigin origin) r operation contourType fb")
  then have "applyOriginTransform moves origin depth r operation contourType fb =
      map (shiftMove sx sy origin depth) moves"
    using Some by (simp add: applyOriginTransform_def)
  then have "\<forall>m \<in> set (applyOriginTransform moves origin depth r operation contourType fb).
           mx m = sx \<and> my m = sy"
    using assms by (auto simp: shiftMove_def Let_def)
  then show ?thesis by blast
qed


lemma applyOriginTransform_map:
  "\<exists>sx sy. applyOriginTransform moves origin depth r operation contourType fb =
     map (shiftMove sx sy origin depth) moves"
proof (cases "boundingBox moves")
  case None
  then have "moves = []" by (simp add: boundingBox_def split: list.splits)
  then show ?thesis using None by (simp add: applyOriginTransform_def)
next
  case (Some b)
  obtain sx sy where "xyShift b (xyOrigin origin) r operation contourType fb = (sx, sy)"
    by (cases "xyShift b (xyOrigin origin) r operation contourType fb")
  then have "applyOriginTransform moves origin depth r operation contourType fb =
      map (shiftMove sx sy origin depth) moves"
    using Some by (simp add: applyOriginTransform_def)
  then show ?thesis by blast
qed

lemma drillAtCentre_last:
  "drillAtCentre cp d \<noteq> []" "last (drillAtCentre cp d) = cutMove 0 0 d"
  by (simp_all add: drillAtCentre_def)

text \<open>One more level appended to a move list that ends with a drill.\<close>

lemma addLayerForPath_after_drill:
  "addLayerForPath longPath (pre @ drillAtCentre cp d0) [pt 0 0] d cp first (safeHeight cp) =
     (pre @ drillLevel cp d0) @ drillAtCentre cp d"
proof -
  have l: "last (pre @ drillAtCentre cp d0) = cutMove 0 0 d0"
    using drillAtCentre_last[of cp d0] by simp
  have n: "pre @ drillAtCentre cp d0 \<noteq> []"
    using drillAtCentre_last(1)[of cp d0] by simp
  have "addLayerForPath longPath (pre @ drillAtCentre cp d0) [pt 0 0] d cp first (safeHeight cp) =
      (pre @ drillAtCentre cp d0)
      @ (if pre @ drillAtCentre cp d0 \<noteq> []
            \<and> mz (last (pre @ drillAtCentre cp d0)) < safeHeight cp - 1 / 1000000
         then [rapidMove (mx (last (pre @ drillAtCentre cp d0)))
                 (my (last (pre @ drillAtCentre cp d0))) (safeHeight cp)] else [])
      @ [rapidMove 0 0 (safeHeight cp)]
      @ (if safeHeight cp > max 0 (leadInAboveMm cp)
         then [rapidMove 0 0 (max 0 (leadInAboveMm cp))] else [])
      @ [cutMove 0 0 0, cutMove 0 0 d]"
    by (rule addLayerForPath_single)
  also have "\<dots> = (pre @ drillAtCentre cp d0) @ retractAtCentre cp d0 @ drillAtCentre cp d"
    unfolding l using n by (simp add: retractAtCentre_def drillAtCentre_def)
  finally show ?thesis by (simp add: drillLevel_def)
qed

lemma drill_fold:
  "fold (\<lambda>depthZ moves. addLayerForPath longPath moves [pt 0 0] depthZ cp True (safeHeight cp))
        ds (pre @ drillAtCentre cp d0)
     = pre @ drillToolpath cp (butlast (d0 # ds)) @ drillAtCentre cp (last (d0 # ds))"
proof (induction ds arbitrary: pre d0)
  case Nil
  show ?case by (simp add: drillToolpath_def)
next
  case (Cons d ds)
  have "fold (\<lambda>depthZ moves. addLayerForPath longPath moves [pt 0 0] depthZ cp True (safeHeight cp))
        (d # ds) (pre @ drillAtCentre cp d0)
      = fold (\<lambda>depthZ moves. addLayerForPath longPath moves [pt 0 0] depthZ cp True (safeHeight cp))
        ds ((pre @ drillLevel cp d0) @ drillAtCentre cp d)"
    by (simp only: fold_simps comp_apply addLayerForPath_after_drill)
  also have "\<dots> = (pre @ drillLevel cp d0) @ drillToolpath cp (butlast (d # ds))
      @ drillAtCentre cp (last (d # ds))"
    by (rule Cons.IH)
  also have "\<dots> = pre @ drillToolpath cp (butlast (d0 # d # ds))
      @ drillAtCentre cp (last (d0 # d # ds))"
    by (simp add: drillToolpath_def)
  finally show ?case .
qed

lemma pocketLayers_drill:
  assumes "depths \<noteq> []"
  shows "pocketLayers longPath [[pt 0 0]] depths cp =
     drillToolpath cp (butlast depths) @ drillAtCentre cp (last depths)"
proof -
  obtain d0 ds where d: "depths = d0 # ds" using assms by (cases depths) auto
  have first: "addLayerForPath longPath [] [pt 0 0] d0 cp True (safeHeight cp) =
      [] @ drillAtCentre cp d0"
    unfolding addLayerForPath_single by (simp add: drillAtCentre_def)
  have "pocketLayers longPath [[pt 0 0]] depths cp =
      fold (\<lambda>depthZ moves. addLayerForPath longPath moves [pt 0 0] depthZ cp True (safeHeight cp))
        ds ([] @ drillAtCentre cp d0)"
    unfolding pocketLayers_single d by (simp only: fold_simps comp_apply first)
  also have "\<dots> = [] @ drillToolpath cp (butlast (d0 # ds)) @ drillAtCentre cp (last (d0 # ds))"
    by (rule drill_fold)
  finally show ?thesis unfolding d by simp
qed

lemma finalRetract_drill:
  "finalRetract (pre @ drillAtCentre cp d) (safeHeight cp) = pre @ drillLevel cp d"
proof -
  have l: "last (pre @ drillAtCentre cp d) = cutMove 0 0 d"
    using drillAtCentre_last[of cp d] by simp
  have n: "pre @ drillAtCentre cp d \<noteq> []"
    using drillAtCentre_last(1)[of cp d] by simp
  show ?thesis
  proof (cases "d < safeHeight cp - 1 / 1000000")
    case True
    then have "finalRetract (pre @ drillAtCentre cp d) (safeHeight cp) =
        (pre @ drillAtCentre cp d) @ [rapidMove 0 0 (safeHeight cp)]"
      using n by (simp add: finalRetract_def Let_def l del: append_assoc)
    then show ?thesis using True by (simp add: drillLevel_def retractAtCentre_def)
  next
    case False
    then have "finalRetract (pre @ drillAtCentre cp d) (safeHeight cp) = pre @ drillAtCentre cp d"
      by (simp add: finalRetract_def l)
    then show ?thesis using False by (simp add: drillLevel_def retractAtCentre_def)
  qed
qed

lemma drillToolpath_snoc:
  "depths \<noteq> [] \<Longrightarrow>
     drillToolpath cp (butlast depths) @ drillLevel cp (last depths) = drillToolpath cp depths"
proof -
  assume "depths \<noteq> []"
  then have "depths = butlast depths @ [last depths]" by simp
  then have "drillToolpath cp depths = drillToolpath cp (butlast depths @ [last depths])" by simp
  also have "\<dots> = drillToolpath cp (butlast depths) @ drillLevel cp (last depths)"
    unfolding drillToolpath_def by simp
  finally show ?thesis by (rule sym)
qed

lemma drillLevel_nonempty: "drillLevel cp d \<noteq> []"
  by (simp add: drillLevel_def drillAtCentre_def)

text \<open>
  Claim C7: for a pocket on a circle, an ellipse or a square whose minimum dimension is
  within \<open>1e-6\<close> of the tool diameter, the pocket path is the single point at the centre.
  For such a path \<^verbatim>\<open>addLayerForPath\<close> appends, at every depth level: the retract to the
  safe height above the last move when that move lies below it (from the second level
  on, a rapid at the centre), the rapid to the centre at the safe height, the rapid down
  to the lead-in height when the safe height exceeds it, and the cuts to \<open>z = 0\<close> and to
  the layer depth. Every move of all layers has \<open>x = y = 0\<close>, and all moves of the
  finished toolpath share one \<open>x\<close> and one \<open>y\<close>: there is no lateral motion.

  The layers of the whole toolpath are exactly these drills: for every list of depths,
  the moves of the depth loop are the drill of each level followed by its retract at the
  centre, up to the drill of the last level, and the final retract of \<^verbatim>\<open>generateToolpath\<close>
  completes the last level. The toolpath that \<^verbatim>\<open>generateToolpath\<close> returns is this
  sequence for the levels of \<^verbatim>\<open>computeDepthLevels\<close>, of which there is at least one, every
  move shifted by the one translation of \<^verbatim>\<open>applyOriginTransform\<close>; it is not empty. The
  \<^verbatim>\<open>stepdown\<close> is positive, as \<^verbatim>\<open>validateInputs\<close> demands.
\<close>

theorem pocket_equal_to_tool_is_drill:
  assumes "equalToToolDiameter shape cp"
    and "(\<exists>d. shape = Circle d) \<or> (\<exists>a b. shape = Ellipse a b) \<or> (\<exists>s. shape = Square s)"
    and "0 < stepdown cp"
  shows "pocketPaths spiralPaths shape cp = [[pt 0 0]]
     \<and> (\<forall>moves depthZ first.
           addLayerForPath longPath moves [pt 0 0] depthZ cp first (safeHeight cp) =
             moves
             @ (if moves \<noteq> [] \<and> mz (last moves) < safeHeight cp - 1 / 1000000
                then [rapidMove (mx (last moves)) (my (last moves)) (safeHeight cp)] else [])
             @ [rapidMove 0 0 (safeHeight cp)]
             @ (if safeHeight cp > max 0 (leadInAboveMm cp)
                then [rapidMove 0 0 (max 0 (leadInAboveMm cp))] else [])
             @ [cutMove 0 0 0, cutMove 0 0 depthZ])
     \<and> (\<forall>m \<in> set (pocketLayers longPath (pocketPaths spiralPaths shape cp)
                        (computeDepthLevels (totalDepth cp) (stepdown cp)) cp).
           mx m = 0 \<and> my m = 0)
     \<and> (\<exists>sx sy. \<forall>m \<in> set (generateToolpathPocket longPath spiralPaths shape cp origin contourType).
           mx m = sx \<and> my m = sy)
     \<and> (\<forall>depths. depths \<noteq> [] \<longrightarrow>
           pocketLayers longPath (pocketPaths spiralPaths shape cp) depths cp =
             drillToolpath cp (butlast depths) @ drillAtCentre cp (last depths)
           \<and> finalRetract (pocketLayers longPath (pocketPaths spiralPaths shape cp) depths cp)
                 (safeHeight cp) = drillToolpath cp depths)
     \<and> computeDepthLevels (totalDepth cp) (stepdown cp) \<noteq> []
     \<and> (\<exists>sx sy. generateToolpathPocket longPath spiralPaths shape cp origin contourType =
           map (shiftMove sx sy origin (totalDepth cp))
             (drillToolpath cp (computeDepthLevels (totalDepth cp) (stepdown cp))))
     \<and> generateToolpathPocket longPath spiralPaths shape cp origin contourType \<noteq> []"
proof -
  let ?depths = "computeDepthLevels (totalDepth cp) (stepdown cp)"
  let ?path = "generateToolpathPocket longPath spiralPaths shape cp origin contourType"
  have p: "pocketPaths spiralPaths shape cp = [[pt 0 0]]"
    using assms(1,2) by (rule pocketPaths_drill)
  have layers: "\<forall>m \<in> set (pocketLayers longPath [[pt 0 0]] ?depths cp). mx m = 0 \<and> my m = 0"
    by (rule pocketLayers_axis)
  have fr: "\<forall>m \<in> set (finalRetract (pocketLayers longPath [[pt 0 0]] ?depths cp) (safeHeight cp)).
      mx m = 0 \<and> my m = 0"
    unfolding finalRetract_axis[OF layers] using layers by auto
  have g: "\<exists>sx sy. \<forall>m \<in> set ?path. mx m = sx \<and> my m = sy"
    unfolding generateToolpathPocket_def Let_def p
    using fr by (rule applyOriginTransform_same_xy)
  have lv: "pocketLayers longPath [[pt 0 0]] depths cp =
             drillToolpath cp (butlast depths) @ drillAtCentre cp (last depths)
           \<and> finalRetract (pocketLayers longPath [[pt 0 0]] depths cp) (safeHeight cp)
               = drillToolpath cp depths" if "depths \<noteq> []" for depths
  proof -
    have a: "pocketLayers longPath [[pt 0 0]] depths cp =
             drillToolpath cp (butlast depths) @ drillAtCentre cp (last depths)"
      using that by (rule pocketLayers_drill)
    have "finalRetract (pocketLayers longPath [[pt 0 0]] depths cp) (safeHeight cp) =
        drillToolpath cp (butlast depths) @ drillLevel cp (last depths)"
      unfolding a by (rule finalRetract_drill)
    then show ?thesis using a drillToolpath_snoc[OF that, of cp] by simp
  qed
  have ne: "?depths \<noteq> []" by (rule computeDepthLevels_nonempty)
  have moves: "finalRetract (pocketLayers longPath [[pt 0 0]] ?depths cp) (safeHeight cp)
      = drillToolpath cp ?depths"
    using lv[OF ne] by (rule conjunct2)
  have tp: "\<exists>sx sy. ?path = map (shiftMove sx sy origin (totalDepth cp)) (drillToolpath cp ?depths)"
    unfolding generateToolpathPocket_def Let_def p moves
    by (rule applyOriginTransform_map)
  have "drillToolpath cp ?depths \<noteq> []"
    using ne drillLevel_nonempty[of cp] by (cases ?depths) (auto simp: drillToolpath_def)
  then have nonempty: "?path \<noteq> []" using tp by auto
  have single: "\<forall>moves depthZ first.
           addLayerForPath longPath moves [pt 0 0] depthZ cp first (safeHeight cp) =
             moves
             @ (if moves \<noteq> [] \<and> mz (last moves) < safeHeight cp - 1 / 1000000
                then [rapidMove (mx (last moves)) (my (last moves)) (safeHeight cp)] else [])
             @ [rapidMove 0 0 (safeHeight cp)]
             @ (if safeHeight cp > max 0 (leadInAboveMm cp)
                then [rapidMove 0 0 (max 0 (leadInAboveMm cp))] else [])
             @ [cutMove 0 0 0, cutMove 0 0 depthZ]"
    using addLayerForPath_single by blast
  have all: "\<forall>depths. depths \<noteq> [] \<longrightarrow>
           pocketLayers longPath [[pt 0 0]] depths cp =
             drillToolpath cp (butlast depths) @ drillAtCentre cp (last depths)
           \<and> finalRetract (pocketLayers longPath [[pt 0 0]] depths cp) (safeHeight cp)
               = drillToolpath cp depths"
    using lv by blast
  show ?thesis
    unfolding p using layers g single all ne tp nonempty
    by (intro conjI) (rule refl | assumption)+
qed

text \<open>
  Claim C7 at the spec's example, a circle of diameter 6 and a tool of diameter 6, depth 5
  in two layers, the origin at the centre of the stock top; the parameters for the unused
  branches are constant functions. The toolpath is the drill to \<open>-2.5\<close>, the retract, the
  drill to \<open>-5\<close> and the final retract.
\<close>

theorem pocket_equal_to_tool_is_drill_witness:
  "equalToToolDiameter (Circle 6) exampleCut
   \<and> 0 < stepdown exampleCut
   \<and> pocketPaths (\<lambda>shape cp. []) (Circle 6) exampleCut = [[pt 0 0]]
   \<and> pocketLayers (\<lambda>moves path depthZ first. moves) (pocketPaths (\<lambda>shape cp. []) (Circle 6) exampleCut)
        (computeDepthLevels (totalDepth exampleCut) (stepdown exampleCut)) exampleCut =
        [rapidMove 0 0 10, rapidMove 0 0 2, cutMove 0 0 0, cutMove 0 0 (- (5 / 2)),
         rapidMove 0 0 10, rapidMove 0 0 10, rapidMove 0 0 2, cutMove 0 0 0, cutMove 0 0 (- 5)]
   \<and> generateToolpathPocket (\<lambda>moves path depthZ first. moves) (\<lambda>shape cp. []) (Circle 6) exampleCut
        \<lparr>xyOrigin = CENTER, zOrigin = STOCK_TOP, zOffset = 0\<rparr> Inside =
        [rapidMove 0 0 10, rapidMove 0 0 2, cutMove 0 0 0, cutMove 0 0 (- (5 / 2)),
         rapidMove 0 0 10, rapidMove 0 0 10, rapidMove 0 0 2, cutMove 0 0 0, cutMove 0 0 (- 5),
         rapidMove 0 0 10]"
proof -
  let ?lp = "\<lambda>(moves :: move list) (path :: point list) (depthZ :: real) (first :: bool). moves"
  let ?sp = "\<lambda>(shape :: shapeParams) (cp :: cutParams). [] :: point list list"
  let ?o = "\<lparr>xyOrigin = CENTER, zOrigin = STOCK_TOP, zOffset = 0\<rparr>"
  have h1: "equalToToolDiameter (Circle 6) exampleCut"
    by (simp add: equalToToolDiameter_def exampleCut_def epsSize_def)
  have h2: "(\<exists>d. Circle 6 = Circle d) \<or> (\<exists>a b. Circle 6 = Ellipse a b) \<or> (\<exists>s. Circle 6 = Square s)"
    by simp
  have h3: "0 < stepdown exampleCut" by (simp add: exampleCut_def)
  note T = pocket_equal_to_tool_is_drill[OF h1 h2 h3, of ?sp ?lp ?o Inside]
  have p: "pocketPaths ?sp (Circle 6) exampleCut = [[pt 0 0]]"
    using T by blast
  have d: "computeDepthLevels (totalDepth exampleCut) (stepdown exampleCut) = [- (5 / 2), - 5]"
    using computeDepthLevels_example by (simp add: exampleCut_def)
  have l1: "drillAtCentre exampleCut z = [rapidMove 0 0 10, rapidMove 0 0 2, cutMove 0 0 0, cutMove 0 0 z]"
    for z by (simp add: drillAtCentre_def exampleCut_def)
  have l2: "drillLevel exampleCut (- (5 / 2)) =
      [rapidMove 0 0 10, rapidMove 0 0 2, cutMove 0 0 0, cutMove 0 0 (- (5 / 2)), rapidMove 0 0 10]"
    "drillLevel exampleCut (- 5) =
      [rapidMove 0 0 10, rapidMove 0 0 2, cutMove 0 0 0, cutMove 0 0 (- 5), rapidMove 0 0 10]"
    by (simp_all add: drillLevel_def l1 retractAtCentre_def) (simp_all add: exampleCut_def)
  have tp: "drillToolpath exampleCut [- (5 / 2), - 5] =
        [rapidMove 0 0 10, rapidMove 0 0 2, cutMove 0 0 0, cutMove 0 0 (- (5 / 2)),
         rapidMove 0 0 10, rapidMove 0 0 10, rapidMove 0 0 2, cutMove 0 0 0, cutMove 0 0 (- 5),
         rapidMove 0 0 10]"
    by (simp add: drillToolpath_def l2)
  have "[- (5 / 2), - 5 :: real] \<noteq> []" by simp
  then have "pocketLayers ?lp (pocketPaths ?sp (Circle 6) exampleCut) [- (5 / 2), - 5] exampleCut =
      drillToolpath exampleCut (butlast [- (5 / 2), - 5]) @ drillAtCentre exampleCut (last [- (5 / 2), - 5])"
    using T by blast
  then have layers: "pocketLayers ?lp (pocketPaths ?sp (Circle 6) exampleCut) [- (5 / 2), - 5] exampleCut =
        [rapidMove 0 0 10, rapidMove 0 0 2, cutMove 0 0 0, cutMove 0 0 (- (5 / 2)),
         rapidMove 0 0 10, rapidMove 0 0 10, rapidMove 0 0 2, cutMove 0 0 0, cutMove 0 0 (- 5)]"
    by (simp add: drillToolpath_def l2 l1)
  have "finalRetract (pocketLayers ?lp (pocketPaths ?sp (Circle 6) exampleCut) [- (5 / 2), - 5]
      exampleCut) (safeHeight exampleCut) = drillToolpath exampleCut [- (5 / 2), - 5]"
    using T \<open>[- (5 / 2), - 5 :: real] \<noteq> []\<close> by blast
  then have e: "generateToolpathPocket ?lp ?sp (Circle 6) exampleCut ?o Inside =
      applyOriginTransform (drillToolpath exampleCut [- (5 / 2), - 5]) ?o (totalDepth exampleCut)
        (toolDiameter exampleCut / 2) POCKET Inside None"
    unfolding generateToolpathPocket_def Let_def d by simp
  have a: "applyOriginTransform
        [rapidMove 0 0 10, rapidMove 0 0 2, cutMove 0 0 0, cutMove 0 0 (- (5 / 2)),
         rapidMove 0 0 10, rapidMove 0 0 10, rapidMove 0 0 2, cutMove 0 0 0, cutMove 0 0 (- 5),
         rapidMove 0 0 10] ?o (totalDepth exampleCut) (toolDiameter exampleCut / 2) POCKET Inside None =
        [rapidMove 0 0 10, rapidMove 0 0 2, cutMove 0 0 0, cutMove 0 0 (- (5 / 2)),
         rapidMove 0 0 10, rapidMove 0 0 10, rapidMove 0 0 2, cutMove 0 0 0, cutMove 0 0 (- 5),
         rapidMove 0 0 10]"
    by (simp add: applyOriginTransform_def boundingBox_def growBox_def xyShift_def shiftMove_def
        rapidMove_def cutMove_def Let_def)
  have g: "generateToolpathPocket ?lp ?sp (Circle 6) exampleCut ?o Inside =
        [rapidMove 0 0 10, rapidMove 0 0 2, cutMove 0 0 0, cutMove 0 0 (- (5 / 2)),
         rapidMove 0 0 10, rapidMove 0 0 10, rapidMove 0 0 2, cutMove 0 0 0, cutMove 0 0 (- 5),
         rapidMove 0 0 10]"
    unfolding e tp a ..
  show ?thesis
    unfolding d using h1 h3 p layers g by (intro conjI)
qed

section \<open>Tab ranges and the tab profile\<close>

















text \<open>
  The number of tabs at decimal inputs: the double quotient \<open>66 / 8.8\<close> is
  \<open>7.499999999999999\<close>, with 7 tabs, and \<open>10 / 0.8\<close> is \<open>12.5\<close>, with 13.
\<close>

lemma tabCount_decimal:
  "tabCount 66 (44 / 5) = 7"
  "tabCount 10 (4 / 5) = 13"
proof -
  have "dbl (44 / 5) =
      real_of_int (roundEven ((44 / 5) / 2 powr real_of_int (3 - 52))) * 2 powr real_of_int (3 - 52)"
    by (rule dbl_eval) (simp_all add: powr_minus)
  then have b: "dbl (44 / 5) = 2476979795053773 / 281474976710656"
    by (simp add: powr_minus roundEven_def Let_def)
  have d: "66 / (2476979795053773 / 281474976710656) = (6192449487634432 / 825659931684591 :: real)"
    by simp
  have "dbl (6192449487634432 / 825659931684591) =
      real_of_int (roundEven ((6192449487634432 / 825659931684591) / 2 powr real_of_int (2 - 52))) * 2 powr real_of_int (2 - 52)"
    by (rule dbl_eval) (simp_all add: powr_minus)
  then have q: "dbl (6192449487634432 / 825659931684591) = 8444249301319679 / 1125899906842624"
    by (simp add: powr_minus roundEven_def Let_def)
  have i: "dbl 66 = 66" using dbl_int[of 66] by simp
  show "tabCount 66 (44 / 5) = 7"
    unfolding tabCount_def ddiv_def i b d q by (simp add: Math_round_def)
  have "dbl (4 / 5) =
      real_of_int (roundEven ((4 / 5) / 2 powr real_of_int (-1 - 52))) * 2 powr real_of_int (-1 - 52)"
    by (rule dbl_eval) (simp_all add: powr_minus)
  then have b': "dbl (4 / 5) = 3602879701896397 / 4503599627370496"
    by (simp add: powr_minus roundEven_def Let_def)
  have d': "10 / (3602879701896397 / 4503599627370496) = (45035996273704960 / 3602879701896397 :: real)"
    by simp
  have "dbl (45035996273704960 / 3602879701896397) =
      real_of_int (roundEven ((45035996273704960 / 3602879701896397) / 2 powr real_of_int (3 - 52))) * 2 powr real_of_int (3 - 52)"
    by (rule dbl_eval) (simp_all add: powr_minus)
  then have q': "dbl (45035996273704960 / 3602879701896397) = 25 / 2"
    by (simp add: powr_minus roundEven_def Let_def)
  show "tabCount 10 (4 / 5) = 13"
    unfolding tabCount_def ddiv_def dbl_small_ints b' d' q' by (simp add: Math_round_def)
qed










end
